theory Spec2Isabelle
  imports Main "HOL-Library.Sublist"
begin

section \<open>JavaScript values as the client sees them\<close>

text \<open>
  The bridge hands the result of \<^verbatim>\<open>JSON.parse\<close> to its consumer unchecked, and
  the consumer reads the fields \<^verbatim>\<open>type\<close>, \<^verbatim>\<open>timestamp\<close> and \<^verbatim>\<open>message\<close>
  dynamically (\<^verbatim>\<open>(event as any).message\<close>). Events are therefore modelled as
  JavaScript values, an object being the list of its own properties. Numbers are
  restricted to integers, whose rendering in a template literal is their decimal
  notation; arrays do not occur in any event of \<^verbatim>\<open>types.ts\<close> and are left out.
\<close>

datatype jsval =
    JUndefined
  | JNull
  | JBool bool
  | JNum int
  | JStr string
  | JObj "(string \<times> jsval) list"

datatype js_error = TypeError

definition digit_char :: "nat \<Rightarrow> char" where
  "digit_char d = char_of (48 + d)"

fun show_nat :: "nat \<Rightarrow> string" where
  "show_nat n = (if n < 10 then [digit_char n] else show_nat (n div 10) @ [digit_char (n mod 10)])"

declare show_nat.simps [simp del]

definition show_int :: "int \<Rightarrow> string" where
  "show_int i = (if i < 0 then CHR ''-'' # show_nat (nat (- i)) else show_nat (nat i))"

text \<open>The conversion a template literal \<^verbatim>\<open>`${v}`\<close> applies to a value.\<close>

fun to_string :: "jsval \<Rightarrow> string" where
  "to_string JUndefined = ''undefined''"
| "to_string JNull = ''null''"
| "to_string (JBool b) = (if b then ''true'' else ''false'')"
| "to_string (JNum n) = show_int n"
| "to_string (JStr s) = s"
| "to_string (JObj fs) = ''[object Object]''"

text \<open>
  Reading a property \<^verbatim>\<open>v.k\<close>: a TypeError on \<^verbatim>\<open>undefined\<close> and \<^verbatim>\<open>null\<close>, the
  property's value on an object that has it, \<^verbatim>\<open>undefined\<close> otherwise (the names read
  by this program are not properties of any primitive's prototype).
\<close>

fun get_prop :: "jsval \<Rightarrow> string \<Rightarrow> js_error + jsval" where
  "get_prop JUndefined k = Inl TypeError"
| "get_prop JNull k = Inl TypeError"
| "get_prop (JObj fs) k = Inr (case map_of fs k of None \<Rightarrow> JUndefined | Some v \<Rightarrow> v)"
| "get_prop v k = Inr JUndefined"

text \<open>The test \<^verbatim>\<open>e.type === t\<close> for a string literal \<^verbatim>\<open>t\<close>.\<close>

definition type_is :: "jsval \<Rightarrow> string \<Rightarrow> bool" where
  "type_is e t = (get_prop e ''type'' = Inr (JStr t))"

section \<open>ScanDisplay: the event handler and the log window\<close>

text \<open>
  The component state of \<^verbatim>\<open>ScanDisplay\<close>: the \<^verbatim>\<open>events\<close> array, the
  \<^verbatim>\<open>isComplete\<close> flag, the key set held by \<^verbatim>\<open>logsRef\<close>, and the number of
  \<^verbatim>\<open>onComplete\<close> timers that have been set.
\<close>

record scan_display =
  events :: "jsval list"
  isComplete :: bool
  logsRef :: "string set"
  timers :: nat

definition init_display :: scan_display where
  "init_display = \<lparr>events = [], isComplete = False, logsRef = {}, timers = 0\<rparr>"

text \<open>
  \<^verbatim>\<open>const key = `${event.type}-${event.timestamp}-${(event as any).message}`\<close>
\<close>

definition event_key :: "jsval \<Rightarrow> js_error + string" where
  "event_key e =
     (case get_prop e ''type'' of Inl x \<Rightarrow> Inl x | Inr t \<Rightarrow>
      case get_prop e ''timestamp'' of Inl x \<Rightarrow> Inl x | Inr ts \<Rightarrow>
      case get_prop e ''message'' of Inl x \<Rightarrow> Inl x | Inr m \<Rightarrow>
        Inr (to_string t @ ''-'' @ to_string ts @ ''-'' @ to_string m))"

text \<open>
  The callback passed to \<^verbatim>\<open>bridge.startScan\<close>. It raises only while it builds the
  key, before any state has changed.
\<close>

definition on_event :: "scan_display \<Rightarrow> jsval \<Rightarrow> js_error + scan_display" where
  "on_event s e =
     (case event_key e of Inl x \<Rightarrow> Inl x | Inr key \<Rightarrow>
      let s1 = (if key \<notin> logsRef s
                then s\<lparr>logsRef := insert key (logsRef s), events := events s @ [e]\<rparr>
                else s) in
      Inr (if type_is e ''complete'' \<or> type_is e ''error''
           then (let s2 = s1\<lparr>isComplete := True\<rparr> in
                 if type_is e ''complete'' then s2\<lparr>timers := Suc (timers s2)\<rparr> else s2)
           else s1))"

text \<open>
  The bridge calls the callback inside its own \<^verbatim>\<open>try\<close>, so an exception of the
  callback is dropped there and the component state stays as it was.
\<close>

definition deliver :: "scan_display \<Rightarrow> jsval \<Rightarrow> scan_display" where
  "deliver s e = (case on_event s e of Inl x \<Rightarrow> s | Inr s' \<Rightarrow> s')"

definition deliver_all :: "scan_display \<Rightarrow> jsval list \<Rightarrow> scan_display" where
  "deliver_all s es = foldl deliver s es"

text \<open>
  \<^verbatim>\<open>events.filter(e => e.type === 'progress' || ...)\<close>. No stored value is
  \<^verbatim>\<open>null\<close> or \<^verbatim>\<open>undefined\<close> (the handler raises on those before it stores), so the
  property read of the filter never raises on the component's array.
\<close>

definition is_log_event :: "jsval \<Rightarrow> bool" where
  "is_log_event e =
     (type_is e ''progress'' \<or> type_is e ''vulnerability'' \<or>
      type_is e ''error'' \<or> type_is e ''agent_action'')"

definition logEvents :: "jsval list \<Rightarrow> jsval list" where
  "logEvents evs = filter is_log_event evs"

text \<open>\<^verbatim>\<open>xs.slice(-15)\<close>: the whole array when it has at most 15 elements, its last 15 otherwise.\<close>

definition slice_last :: "nat \<Rightarrow> 'a list \<Rightarrow> 'a list" where
  "slice_last n xs = drop (length xs - n) xs"

definition displayEvents :: "jsval list \<Rightarrow> jsval list" where
  "displayEvents evs = slice_last 15 (logEvents evs)"


section \<open>Strings: trimming and JSON text\<close>

text \<open>
  Characters stand for code units below 256. \<^verbatim>\<open>String.prototype.trim\<close> removes
  white space at both ends: tab, line feed, vertical tab, form feed, carriage return,
  space and no-break space in this range.
\<close>

definition is_space :: "char \<Rightarrow> bool" where
  "is_space c = (of_char c \<in> {9, 10, 11, 12, 13, 32, 160 :: nat})"

definition js_trim :: "string \<Rightarrow> string" where
  "js_trim s = rev (dropWhile is_space (rev (dropWhile is_space s)))"

definition hex_digit :: "nat \<Rightarrow> char" where
  "hex_digit d = (if d < 10 then char_of (48 + d) else char_of (87 + d))"

text \<open>
  \<^verbatim>\<open>JSON.stringify\<close> on a string: the quote and the backslash are escaped with a
  backslash, the control characters below 32 by their short form or as
  \<^verbatim>\<open>\u00XX\<close>; everything else is copied.
\<close>

definition json_escape :: "char \<Rightarrow> string" where
  "json_escape c =
     (let n = (of_char c :: nat) in
      if n = 34 then [CHR 0x5C, CHR 0x22]
      else if n = 92 then [CHR 0x5C, CHR 0x5C]
      else if n = 8 then [CHR 0x5C, CHR ''b'']
      else if n = 12 then [CHR 0x5C, CHR ''f'']
      else if n = 10 then [CHR 0x5C, CHR ''n'']
      else if n = 13 then [CHR 0x5C, CHR ''r'']
      else if n = 9 then [CHR 0x5C, CHR ''t'']
      else if n < 32 then [CHR 0x5C, CHR ''u'', CHR ''0'', CHR ''0'', hex_digit (n div 16), hex_digit (n mod 16)]
      else [c])"

definition json_string :: "string \<Rightarrow> string" where
  "json_string s = CHR 0x22 # concat (map json_escape s) @ [CHR 0x22]"

fun join_with :: "string \<Rightarrow> string list \<Rightarrow> string" where
  "join_with sep [] = []"
| "join_with sep [x] = x"
| "join_with sep (x # y # ys) = x @ sep @ join_with sep (y # ys)"

section \<open>ScanConfig and its serialisation\<close>

text \<open>
  \<^verbatim>\<open>interface ScanConfig { target: string; objective?: string; provider?: string; model?: string }\<close>.
  \<open>None\<close> stands for a property that is missing or \<^verbatim>\<open>undefined\<close>;
  \<^verbatim>\<open>JSON.stringify\<close> writes neither.
\<close>

record ScanConfig =
  target :: string
  objective :: "string option"
  provider :: "string option"
  model :: "string option"

definition config_props :: "ScanConfig \<Rightarrow> (string \<times> string) list" where
  "config_props c =
     (''target'', target c) #
     List.map_filter (\<lambda>(k, v). map_option (Pair k) v)
       [(''objective'', objective c), (''provider'', provider c), (''model'', model c)]"

definition stringify_config :: "ScanConfig \<Rightarrow> string" where
  "stringify_config c =
     ''{'' @ join_with '','' (map (\<lambda>(k, v). json_string k @ '':'' @ json_string v) (config_props c)) @ ''}''"

section \<open>Reading the configuration line back\<close>

text \<open>
  The text that \<^verbatim>\<open>JSON.stringify\<close> writes is meant for a JSON reader. To say what
  a line contains, here is a reader for the JSON text of an object whose members are
  strings, with no white space between the tokens (\<^verbatim>\<open>JSON.stringify\<close> writes none).
  A string is a quote, then characters other than the quote, the backslash and the
  control characters, or escape sequences, and a closing quote; of the escapes
  \<^verbatim>\<open>\uXXXX\<close> those for code units below 256 are read. \<open>read_chars\<close> reads a string
  after its opening quote and returns it with the rest of the text.
\<close>

definition hex_value :: "char \<Rightarrow> nat option" where
  "hex_value c =
     (let n = (of_char c :: nat) in
      if 48 \<le> n \<and> n \<le> 57 then Some (n - 48)
      else if 97 \<le> n \<and> n \<le> 102 then Some (n - 87)
      else if 65 \<le> n \<and> n \<le> 70 then Some (n - 55)
      else None)"

definition short_escape :: "char \<Rightarrow> char option" where
  "short_escape d =
     (if d = CHR 0x22 then Some (CHR 0x22)
      else if d = CHR 0x5C then Some (CHR 0x5C)
      else if d = CHR ''/'' then Some (CHR ''/'')
      else if d = CHR ''b'' then Some (CHR 0x08)
      else if d = CHR ''f'' then Some (CHR 0x0C)
      else if d = CHR ''n'' then Some (CHR 0x0A)
      else if d = CHR ''r'' then Some (CHR 0x0D)
      else if d = CHR ''t'' then Some (CHR 0x09)
      else None)"

fun read_chars :: "string \<Rightarrow> (string \<times> string) option" where
  "read_chars [] = None"
| "read_chars (c # cs) =
     (if c = CHR 0x22 then Some ([], cs)
      else if c = CHR 0x5C then
        (case cs of
           [] \<Rightarrow> None
         | d # ds \<Rightarrow>
             if d = CHR ''u'' then
               (case ds of
                  h1 # h2 # h3 # h4 # rest \<Rightarrow>
                    (case (hex_value h1, hex_value h2, hex_value h3, hex_value h4) of
                       (Some a, Some b, Some x, Some y) \<Rightarrow>
                         if a = 0 \<and> b = 0
                         then map_option (\<lambda>(s, r). (char_of (16 * x + y) # s, r)) (read_chars rest)
                         else None
                     | _ \<Rightarrow> None)
                | _ \<Rightarrow> None)
             else
               (case short_escape d of
                  None \<Rightarrow> None
                | Some e \<Rightarrow> map_option (\<lambda>(s, r). (e # s, r)) (read_chars ds)))
      else if (of_char c :: nat) < 32 then None
      else map_option (\<lambda>(s, r). (c # s, r)) (read_chars cs))"

definition read_string :: "string \<Rightarrow> (string \<times> string) option" where
  "read_string s =
     (case s of [] \<Rightarrow> None | c # cs \<Rightarrow> if c = CHR 0x22 then read_chars cs else None)"

definition read_member :: "string \<Rightarrow> ((string \<times> string) \<times> string) option" where
  "read_member s =
     (case read_string s of
        None \<Rightarrow> None
      | Some (k, r) \<Rightarrow>
          (case r of
             [] \<Rightarrow> None
           | c # r' \<Rightarrow>
               if c = CHR '':'' then
                 (case read_string r' of None \<Rightarrow> None | Some (v, r'') \<Rightarrow> Some ((k, v), r''))
               else None))"

text \<open>The members up to the closing brace; the first argument bounds their number.\<close>

fun read_members :: "nat \<Rightarrow> string \<Rightarrow> (string \<times> string) list option" where
  "read_members 0 s = None"
| "read_members (Suc n) s =
     (case read_member s of
        None \<Rightarrow> None
      | Some (kv, r) \<Rightarrow>
          (case r of
             [] \<Rightarrow> None
           | c # r' \<Rightarrow>
               if c = CHR ''}'' then (if r' = [] then Some [kv] else None)
               else if c = CHR '','' then map_option ((#) kv) (read_members n r')
               else None))"

definition read_object :: "string \<Rightarrow> (string \<times> string) list option" where
  "read_object s =
     (case s of
        [] \<Rightarrow> None
      | c # r \<Rightarrow>
          if c = CHR ''{'' then (if r = ''}'' then Some [] else read_members (length r) r)
          else None)"

section \<open>TargetInput and App\<close>

datatype input_step = Target_step | Objective_step

record target_input =
  ti_step :: input_step
  ti_target :: string
  ti_objective :: string

definition init_input :: target_input where
  "init_input = \<lparr>ti_step = Target_step, ti_target = [], ti_objective = []\<rparr>"

definition handleTargetSubmit :: "target_input \<Rightarrow> string \<Rightarrow> target_input" where
  "handleTargetSubmit s v = s\<lparr>ti_target := v, ti_step := Objective_step\<rparr>"

text \<open>
  \<^verbatim>\<open>onSubmit({ target, objective: value || undefined })\<close>: the empty string is falsy.
  The function returns the new component state and the config passed to \<^verbatim>\<open>onSubmit\<close>.
\<close>

definition handleObjectiveSubmit :: "target_input \<Rightarrow> string \<Rightarrow> target_input \<times> ScanConfig" where
  "handleObjectiveSubmit s v =
     (s\<lparr>ti_objective := v\<rparr>,
      \<lparr>target = ti_target s, objective = (if v = [] then None else Some v),
       provider = None, model = None\<rparr>)"

datatype screen = Welcome_screen | Docker_check | Input_screen | Scanning | Complete_screen

record app =
  screen :: screen
  scanConfig :: "ScanConfig option"
  error :: "string option"

definition init_app :: app where
  "init_app = \<lparr>screen = Docker_check, scanConfig = None, error = None\<rparr>"

text \<open>The \<^verbatim>\<open>onSubmit\<close> that \<^verbatim>\<open>App\<close> gives to \<^verbatim>\<open>TargetInput\<close>.\<close>

definition app_onSubmit :: "app \<Rightarrow> ScanConfig \<Rightarrow> app" where
  "app_onSubmit a c = a\<lparr>scanConfig := Some c, screen := Scanning\<rparr>"

text \<open>
  \<^verbatim>\<open>App\<close> renders \<^verbatim>\<open>ScanDisplay\<close> with the stored config when no error is set, the
  screen is \<^verbatim>\<open>'scanning'\<close> and the config is not \<^verbatim>\<open>null\<close>.
\<close>

definition scan_display_config :: "app \<Rightarrow> ScanConfig option" where
  "scan_display_config a =
     (if error a = None \<and> screen a = Scanning then scanConfig a else None)"

section \<open>PythonBridge\<close>

text \<open>
  What the bridge does to the outside: it spawns the child, writes to its standard
  input, calls \<^verbatim>\<open>onEvent\<close>, and sends SIGTERM.
\<close>

datatype action = Spawn | Write string | OnEvent jsval | Kill

text \<open>The value caught by the outer \<^verbatim>\<open>catch\<close>: its \<^verbatim>\<open>message\<close> and \<^verbatim>\<open>stack\<close>.\<close>

record thrown =
  message :: "string option"
  stack :: "string option"

text \<open>The handle that \<^verbatim>\<open>execa\<close> returns; a failed spawn gives one without streams.\<close>

record child =
  has_stdin :: bool
  has_stdout :: bool

text \<open>
  \<^verbatim>\<open>startScan\<close> is an async function. It is suspended at
  \<^verbatim>\<open>await import('readline')\<close>, while it waits for the next line of the
  \<^verbatim>\<open>for await\<close> loop, and while it awaits the child's promise; between two
  resumptions other code of the same thread may run, \<^verbatim>\<open>stop()\<close> in particular.
  The control point is kept in \<open>pc\<close>, and \<open>process\<close> says whether
  \<^verbatim>\<open>this.process\<close> holds a handle.
\<close>

datatype pc = Idle | Importing | Reading | Awaiting | Finished

record bridge =
  process :: bool
  pc :: pc
  trace :: "action list"

definition new_bridge :: bridge where
  "new_bridge = \<lparr>process = False, pc = Idle, trace = []\<rparr>"

text \<open>
  \<^verbatim>\<open>onEvent({ type: 'error', message: error.message || 'Scan failed', stack: error.stack })\<close>
\<close>

definition error_event :: "thrown \<Rightarrow> jsval" where
  "error_event err =
     JObj [(''type'', JStr ''error''),
           (''message'', JStr (case message err of None \<Rightarrow> ''Scan failed''
                               | Some m \<Rightarrow> if m = [] then ''Scan failed'' else m)),
           (''stack'', case stack err of None \<Rightarrow> JUndefined | Some st \<Rightarrow> JStr st)]"

text \<open>
  The TypeError of \<^verbatim>\<open>this.process.stdout\<close> when \<^verbatim>\<open>this.process\<close> is
  \<^verbatim>\<open>null\<close>. Its stack begins with the name and the message; the frames that
  follow depend on the engine and are left out.
\<close>

definition null_stdout_error :: thrown where
  "null_stdout_error =
     \<lparr>message = Some (''Cannot read properties of null (reading '' @ [CHR 0x27] @ ''stdout'' @ [CHR 0x27] @ '')''),
      stack = Some (''TypeError: Cannot read properties of null (reading '' @ [CHR 0x27] @ ''stdout'' @ [CHR 0x27] @ '')'')\<rparr>"

text \<open>
  The synchronous start of \<^verbatim>\<open>startScan\<close>, up to its first suspension: with an
  output stream, at the import of \<^verbatim>\<open>readline\<close>; without one, at the await of the
  child's promise.
\<close>

definition begin_scan :: "ScanConfig \<Rightarrow> child \<Rightarrow> bridge \<Rightarrow> bridge" where
  "begin_scan cfg ch b =
     (let b1 = b\<lparr>process := True, trace := trace b @ [Spawn]\<rparr>;
          b2 = (if has_stdin ch
                then b1\<lparr>trace := trace b1 @ [Write (stringify_config cfg @ [CHR 0x0A])]\<rparr>
                else b1)
      in b2\<lparr>pc := (if has_stdout ch then Importing else Awaiting)\<rparr>)"

text \<open>
  What can happen next: the import completes, readline yields a line, readline ends,
  the awaited promise settles (\<open>None\<close>: fulfilled, \<open>Some err\<close>: rejected with
  \<open>err\<close>), or \<^verbatim>\<open>stop()\<close> is called. An input that the function is not waiting
  for at its control point leaves the state as it is.
\<close>

datatype input = Imported | Line string | Eof | Settled "thrown option" | Stop

text \<open>
  \<open>parse\<close> is \<^verbatim>\<open>JSON.parse\<close>, \<open>None\<close> when it throws. After the import,
  \<^verbatim>\<open>readline.createInterface({ input: this.process.stdout, ... })\<close> reads the
  field \<^verbatim>\<open>this.process\<close> again: after \<^verbatim>\<open>stop()\<close> it is \<^verbatim>\<open>null\<close>, the
  property read throws, and the outer \<^verbatim>\<open>catch\<close> reports the TypeError as an error
  event. At the end of the loop \<^verbatim>\<open>await this.process\<close> reads the field once
  more: awaiting \<^verbatim>\<open>null\<close> completes at once.
\<close>

fun step :: "(string \<Rightarrow> jsval option) \<Rightarrow> bridge \<Rightarrow> input \<Rightarrow> bridge" where
  "step parse b Imported =
     (if pc b = Importing then
        (if process b then b\<lparr>pc := Reading\<rparr>
         else b\<lparr>pc := Finished, trace := trace b @ [OnEvent (error_event null_stdout_error)]\<rparr>)
      else b)"
| "step parse b (Line l) =
     (if pc b = Reading then
        (if js_trim l = [] then b
         else case parse l of None \<Rightarrow> b
              | Some e \<Rightarrow> b\<lparr>trace := trace b @ [OnEvent e]\<rparr>)
      else b)"
| "step parse b Eof =
     (if pc b = Reading then b\<lparr>pc := (if process b then Awaiting else Finished)\<rparr> else b)"
| "step parse b (Settled r) =
     (if pc b = Awaiting then
        (case r of None \<Rightarrow> b\<lparr>pc := Finished\<rparr>
         | Some err \<Rightarrow> b\<lparr>pc := Finished, trace := trace b @ [OnEvent (error_event err)]\<rparr>)
      else b)"
| "step parse b Stop =
     (if process b then b\<lparr>process := False, trace := trace b @ [Kill]\<rparr> else b)"

definition run :: "(string \<Rightarrow> jsval option) \<Rightarrow> bridge \<Rightarrow> input list \<Rightarrow> bridge" where
  "run parse b ins = foldl (step parse) b ins"

text \<open>
  A run that nobody stops: the import, the child's output \<open>ls\<close> line by line, the
  end of the output, and the settlement \<open>r\<close> of the child's promise.
\<close>

definition startScan ::
  "(string \<Rightarrow> jsval option) \<Rightarrow> ScanConfig \<Rightarrow> child \<Rightarrow> string list \<Rightarrow> thrown option \<Rightarrow> bridge" where
  "startScan parse cfg ch ls r =
     run parse (begin_scan cfg ch new_bridge) (Imported # map Line ls @ [Eof, Settled r])"

definition onEvent_calls :: "action list \<Rightarrow> jsval list" where
  "onEvent_calls tr = List.map_filter (\<lambda>a. case a of OnEvent e \<Rightarrow> Some e | _ \<Rightarrow> None) tr"

definition is_terminal :: "jsval \<Rightarrow> bool" where
  "is_terminal e = (type_is e ''complete'' \<or> type_is e ''error'')"

text \<open>The effect of \<^verbatim>\<open>ScanDisplay\<close>: a fresh bridge whose events go to the handler.\<close>

definition scan_session ::
  "(string \<Rightarrow> jsval option) \<Rightarrow> ScanConfig \<Rightarrow> child \<Rightarrow> string list \<Rightarrow> thrown option \<Rightarrow> scan_display" where
  "scan_session parse cfg ch ls r =
     deliver_all init_display (onEvent_calls (trace (startScan parse cfg ch ls r)))"


section \<open>Docker utilities\<close>

record DockerStatus =
  installed :: bool
  running :: bool
  imageBuilt :: bool

datatype os = Darwin | Linux | Other_os

text \<open>
  The outside world of \<^verbatim>\<open>docker.ts\<close>: the platform and the outcome of every
  external command. \<open>poll_ok i\<close> is the outcome of \<^verbatim>\<open>docker ps\<close> in round
  \<open>i\<close> of the waiting loop; an output of \<open>None\<close> means that the command failed.
\<close>

record docker_env =
  os_platform :: os
  version_ok :: bool
  ps_ok :: bool
  images_stdout :: "string option"
  brew_version_ok :: bool
  brew_install_ok :: bool
  curl_stdout :: "string option"
  sh_ok :: bool
  open_ok :: bool
  poll_ok :: "nat \<Rightarrow> bool"
  build_failure :: "string option"

text \<open>
  What \<^verbatim>\<open>docker.ts\<close> does to the outside: it runs a command, reports progress, and
  sleeps. \<open>Error\<close> is a \<^verbatim>\<open>new Error(message)\<close> of the program; \<open>Execa_error\<close> is
  the rejection of a failed command, passed on as it is.
\<close>

datatype docker_action = Exec string "string list" | Progress string | Sleep nat

datatype docker_error = Error string | Execa_error string

definition checkDockerInstalled :: "docker_env \<Rightarrow> docker_action list \<times> bool" where
  "checkDockerInstalled env = ([Exec ''docker'' [''--version'']], version_ok env)"

text \<open>\<^verbatim>\<open>checkDockerRunning\<close>, given the outcome of its \<^verbatim>\<open>docker ps\<close>.\<close>

definition checkDockerRunning :: "bool \<Rightarrow> docker_action list \<times> bool" where
  "checkDockerRunning ok = ([Exec ''docker'' [''ps'']], ok)"

definition checkImageBuilt :: "docker_env \<Rightarrow> docker_action list \<times> bool" where
  "checkImageBuilt env =
     ([Exec ''docker'' [''images'', ''-q'', ''inferno-sandbox:latest'']],
      (case images_stdout env of None \<Rightarrow> False | Some out \<Rightarrow> length (js_trim out) > 0))"

definition getDockerStatus :: "docker_env \<Rightarrow> docker_action list \<times> DockerStatus" where
  "getDockerStatus env =
     (let (t1, inst) = checkDockerInstalled env;
          (t2, run) = (if inst then checkDockerRunning (ps_ok env) else ([], False));
          (t3, img) = (if run then checkImageBuilt env else ([], False))
      in (t1 @ t2 @ t3, \<lparr>installed = inst, running = run, imageBuilt = img\<rparr>))"

definition manual_install :: string where
  "manual_install = ''Please install Docker Desktop from https://www.docker.com/products/docker-desktop''"

definition installDockerMac :: "docker_env \<Rightarrow> docker_action list \<times> docker_error option" where
  "installDockerMac env =
     (case os_platform env of
        Darwin \<Rightarrow>
          if \<not> brew_version_ok env then ([Exec ''brew'' [''--version'']], Some (Error manual_install))
          else if \<not> brew_install_ok env
          then ([Exec ''brew'' [''--version''], Exec ''brew'' [''install'', ''--cask'', ''docker'']],
                Some (Error manual_install))
          else ([Exec ''brew'' [''--version''], Exec ''brew'' [''install'', ''--cask'', ''docker'']], None)
      | Linux \<Rightarrow>
          (case curl_stdout env of
             None \<Rightarrow> ([Exec ''curl'' [''-fsSL'', ''https://get.docker.com'']], Some (Execa_error ''curl''))
           | Some script \<Rightarrow>
               ([Exec ''curl'' [''-fsSL'', ''https://get.docker.com''], Exec ''sh'' [''-c'', script]],
                if sh_ok env then None else Some (Execa_error ''sh'')))
      | Other_os \<Rightarrow> ([], Some (Error manual_install)))"

definition startDockerDesktop :: "docker_env \<Rightarrow> docker_action list \<times> docker_error option" where
  "startDockerDesktop env =
     (case os_platform env of
        Darwin \<Rightarrow> ([Exec ''open'' [''-a'', ''Docker'']],
                   if open_ok env then None else Some (Execa_error ''open''))
      | _ \<Rightarrow> ([], Some (Error ''Please start Docker manually'')))"

definition build_command :: docker_action where
  "build_command =
     Exec ''docker'' [''build'', ''-t'', ''inferno-sandbox:latest'', ''/Users/ademkok/Inferno-AI/Inferno'']"

definition buildSandboxImage :: "docker_env \<Rightarrow> docker_action list \<times> docker_error option" where
  "buildSandboxImage env =
     (case build_failure env of
        None \<Rightarrow> ([Progress ''Building sandbox image...'', build_command,
                  Progress ''Sandbox image built successfully''], None)
      | Some e \<Rightarrow> ([Progress ''Building sandbox image...'', build_command],
                   Some (Error (''Failed to build sandbox image: '' @ e))))"

text \<open>
  \<^verbatim>\<open>for (let i = 0; i < 30; i++) { await sleep(1000); if (await checkDockerRunning()) { status.running = true; break; } }\<close>,
  from round \<open>i\<close> on. The result is the actions of the loop and the value of
  \<^verbatim>\<open>status.running\<close> after it.
\<close>

function wait_for_docker :: "docker_env \<Rightarrow> nat \<Rightarrow> docker_action list \<times> bool" where
  "wait_for_docker env i =
     (if i < 30 then
        (let (t, ok) = checkDockerRunning (poll_ok env i) in
         if ok then (Sleep 1000 # t, True)
         else (let (t', r) = wait_for_docker env (Suc i) in (Sleep 1000 # t @ t', r)))
      else ([], False))"
  by pat_completeness auto
termination
  by (relation "measure (\<lambda>(env, i). 30 - i)") (auto simp: checkDockerRunning_def)

declare wait_for_docker.simps [simp del]

text \<open>The three stages of \<^verbatim>\<open>ensureDocker\<close>, each from the status the previous one left.\<close>

definition install_stage :: "docker_env \<Rightarrow> DockerStatus \<Rightarrow> docker_action list \<times> (docker_error + DockerStatus)" where
  "install_stage env status =
     (if \<not> installed status then
        (let (t, r) = installDockerMac env in
         case r of
           Some e \<Rightarrow> (Progress ''Installing Docker...'' # t, Inl e)
         | None \<Rightarrow> (Progress ''Installing Docker...'' # t @ [Progress ''Docker installed''],
                    Inr (status\<lparr>installed := True\<rparr>)))
      else ([], Inr status))"

definition start_stage :: "docker_env \<Rightarrow> DockerStatus \<Rightarrow> docker_action list \<times> (docker_error + DockerStatus)" where
  "start_stage env status =
     (if \<not> running status then
        (let (t, r) = startDockerDesktop env in
         case r of
           Some e \<Rightarrow> (Progress ''Starting Docker...'' # t, Inl e)
         | None \<Rightarrow>
             (let (tw, ok) = wait_for_docker env 0 in
              if \<not> ok
              then (Progress ''Starting Docker...'' # t @ tw,
                    Inl (Error ''Docker failed to start within 30 seconds''))
              else (Progress ''Starting Docker...'' # t @ tw @ [Progress ''Docker is running''],
                    Inr (status\<lparr>running := True\<rparr>))))
      else ([], Inr status))"

definition build_stage :: "docker_env \<Rightarrow> DockerStatus \<Rightarrow> docker_action list \<times> (docker_error + DockerStatus)" where
  "build_stage env status =
     (if \<not> imageBuilt status then
        (let (t, r) = buildSandboxImage env in
         case r of
           Some e \<Rightarrow> (t, Inl e)
         | None \<Rightarrow> (t, Inr (status\<lparr>imageBuilt := True\<rparr>)))
      else ([], Inr status))"

text \<open>Sequencing: a stage that throws ends the function; the actions add up.\<close>

definition and_then ::
  "docker_action list \<times> (docker_error + DockerStatus) \<Rightarrow>
   (DockerStatus \<Rightarrow> docker_action list \<times> (docker_error + DockerStatus)) \<Rightarrow>
   docker_action list \<times> (docker_error + DockerStatus)" where
  "and_then m f =
     (case m of
        (t, Inl e) \<Rightarrow> (t, Inl e)
      | (t, Inr st) \<Rightarrow> (let (t', r) = f st in (t @ t', r)))"

definition ensureDocker :: "docker_env \<Rightarrow> docker_action list \<times> (docker_error + DockerStatus)" where
  "ensureDocker env =
     (let (t0, status) = getDockerStatus env in
      and_then (and_then (and_then (t0, Inr status) (install_stage env)) (start_stage env))
        (build_stage env))"

text \<open>
  The actions that change the machine, as opposed to the read-only probes, the progress
  messages and the sleeps.
\<close>

definition is_probe :: "docker_action \<Rightarrow> bool" where
  "is_probe a =
     (a = Exec ''docker'' [''--version''] \<or> a = Exec ''docker'' [''ps''] \<or>
      a = Exec ''docker'' [''images'', ''-q'', ''inferno-sandbox:latest''])"

fun is_remediation :: "docker_action \<Rightarrow> bool" where
  "is_remediation (Exec c args) = (\<not> is_probe (Exec c args))"
| "is_remediation (Progress m) = False"
| "is_remediation (Sleep n) = False"



section \<open>Sample data\<close>

text \<open>
  The two protocol lines of the end-to-end example and the values
  \<^verbatim>\<open>JSON.parse\<close> gives for them. \<open>sample_parse\<close> agrees with \<^verbatim>\<open>JSON.parse\<close> on
  these two lines and on text that is not JSON.
\<close>

definition progress_line :: string where
  "progress_line = ''{\"type\":\"progress\",\"step\":\"reasoning\",\"message\":\"m\",\"timestamp\":1}''"

definition progress_event :: jsval where
  "progress_event =
     JObj [(''type'', JStr ''progress''), (''step'', JStr ''reasoning''),
           (''message'', JStr ''m''), (''timestamp'', JNum 1)]"

definition complete_line :: string where
  "complete_line = ''{\"type\":\"complete\",\"summary\":{\"vulnerabilities\":2,\"time\":10},\"timestamp\":2}''"

definition complete_event :: jsval where
  "complete_event =
     JObj [(''type'', JStr ''complete''),
           (''summary'', JObj [(''vulnerabilities'', JNum 2), (''time'', JNum 10)]),
           (''timestamp'', JNum 2)]"

definition sample_parse :: "string \<Rightarrow> jsval option" where
  "sample_parse l =
     (if l = progress_line then Some progress_event
      else if l = complete_line then Some complete_event
      else None)"

definition sample_config :: ScanConfig where
  "sample_config = \<lparr>target = ''example.com'', objective = None, provider = None, model = None\<rparr>"

text \<open>A config with every key set, and a target that needs escaping.\<close>

definition full_config :: ScanConfig where
  "full_config =
     \<lparr>target = ''http://example.com/?q=\"x\"'', objective = Some ''Focus on OWASP Top 10'',
      provider = Some ''openai'', model = Some ''gpt-5''\<rparr>"

definition piped_child :: child where
  "piped_child = \<lparr>has_stdin = True, has_stdout = True\<rparr>"

text \<open>The rejection of a child that ended with exit code 1, and of one killed by SIGTERM.\<close>

definition exit_failure :: thrown where
  "exit_failure = \<lparr>message = Some ''Command failed with exit code 1'', stack = Some ''Error: Command failed''\<rparr>"

definition killed_failure :: thrown where
  "killed_failure = \<lparr>message = Some ''Command was killed with SIGTERM'', stack = Some ''Error: Command was killed''\<rparr>"

text \<open>Two different findings, reported in the same second.\<close>

definition vuln_sqli :: jsval where
  "vuln_sqli =
     JObj [(''type'', JStr ''vulnerability''), (''severity'', JStr ''HIGH''),
           (''title'', JStr ''SQL injection''), (''endpoint'', JStr ''/login''),
           (''evidence'', JStr ''error-based''), (''timestamp'', JNum 5)]"

definition vuln_xss :: jsval where
  "vuln_xss =
     JObj [(''type'', JStr ''vulnerability''), (''severity'', JStr ''MEDIUM''),
           (''title'', JStr ''Reflected XSS''), (''endpoint'', JStr ''/search''),
           (''evidence'', JStr ''script echoed''), (''timestamp'', JNum 5)]"

text \<open>A progress event with message \<open>m\<close> at time \<open>t\<close>.\<close>

definition progress_at :: "int \<Rightarrow> string \<Rightarrow> jsval" where
  "progress_at t m =
     JObj [(''type'', JStr ''progress''), (''step'', JStr ''scan''),
           (''message'', JStr m), (''timestamp'', JNum t)]"

text \<open>An agent action, and an event of a type that \<^verbatim>\<open>types.ts\<close> does not know.\<close>

definition agent_event :: jsval where
  "agent_event =
     JObj [(''type'', JStr ''agent_action''), (''agent'', JStr ''sandbox''),
           (''action'', JStr ''run_command''), (''command'', JStr ''curl -s http://example.com''),
           (''timestamp'', JNum 6)]"

definition debug_event :: jsval where
  "debug_event = JObj [(''type'', JStr ''debug''), (''message'', JStr ''heap 12MB''), (''timestamp'', JNum 7)]"

text \<open>A machine with Docker installed, running, and the sandbox image built.\<close>

definition ready_env :: docker_env where
  "ready_env =
     \<lparr>os_platform = Darwin, version_ok = True, ps_ok = True, images_stdout = Some ''3f2a9c1d7b5e'',
      brew_version_ok = True, brew_install_ok = True, curl_stdout = None, sh_ok = True,
      open_ok = True, poll_ok = (\<lambda>i. False), build_failure = None\<rparr>"

section \<open>Auxiliary notions for the statements\<close>

text \<open>The events that the reading loop hands over for the lines \<open>ls\<close>.\<close>

definition parsed_events :: "(string \<Rightarrow> jsval option) \<Rightarrow> string list \<Rightarrow> jsval list" where
  "parsed_events parse ls = List.map_filter (\<lambda>l. if js_trim l = [] then None else parse l) ls"

definition is_write :: "action \<Rightarrow> bool" where
  "is_write a = (case a of Write l \<Rightarrow> True | _ \<Rightarrow> False)"

text \<open>One member of the serialized object.\<close>

definition render_member :: "string \<times> string \<Rightarrow> string" where
  "render_member kv = json_string (fst kv) @ '':'' @ json_string (snd kv)"

section \<open>The log window\<close>

text \<open>The handler stores neither \<^verbatim>\<open>null\<close> nor \<^verbatim>\<open>undefined\<close>.\<close>

lemma deliver_stored_defined:
  "\<forall>x \<in> set (events s). x \<noteq> JNull \<and> x \<noteq> JUndefined \<Longrightarrow>
   \<forall>x \<in> set (events (deliver s e)). x \<noteq> JNull \<and> x \<noteq> JUndefined"
  by (cases e) (auto simp: deliver_def on_event_def event_key_def Let_def split: sum.splits)

lemma stored_values_defined:
  "\<forall>x \<in> set (events s). x \<noteq> JNull \<and> x \<noteq> JUndefined \<Longrightarrow>
   \<forall>x \<in> set (events (deliver_all s es)). x \<noteq> JNull \<and> x \<noteq> JUndefined"
proof (induction es arbitrary: s)
  case Nil
  then show ?case by (simp add: deliver_all_def)
next
  case (Cons e es)
  from Cons.prems have "\<forall>x \<in> set (events (deliver s e)). x \<noteq> JNull \<and> x \<noteq> JUndefined"
    by (rule deliver_stored_defined)
  then have "\<forall>x \<in> set (events (deliver_all (deliver s e) es)). x \<noteq> JNull \<and> x \<noteq> JUndefined"
    by (rule Cons.IH)
  then show ?case by (simp add: deliver_all_def)
qed

lemma slice_last_length: "length (slice_last n xs) = min n (length xs)"
  by (simp add: slice_last_def)

lemma slice_last_suffix: "suffix (slice_last n xs) xs"
  by (simp add: slice_last_def suffix_drop)

lemma complete_not_log_event: "type_is e ''complete'' \<Longrightarrow> \<not> is_log_event e"
  by (auto simp: is_log_event_def type_is_def)

lemma is_log_progress_at: "is_log_event (progress_at t m)"
  by (simp add: is_log_event_def type_is_def progress_at_def)

lemma complete_event_not_log: "\<not> is_log_event complete_event"
  by (simp add: is_log_event_def type_is_def complete_event_def)

lemma is_log_event_iff:
  "is_log_event e \<longleftrightarrow>
     (case e of
        JObj fs \<Rightarrow> map_of fs ''type'' \<in> {Some (JStr ''progress''), Some (JStr ''vulnerability''),
                                           Some (JStr ''error''), Some (JStr ''agent_action'')}
      | _ \<Rightarrow> False)"
  by (cases e) (auto simp: is_log_event_def type_is_def split: option.splits)

text \<open>
  C6. Whatever the recorded history \<open>evs\<close> is, the log view shows at most 15
  entries: the last \<open>min 15 n\<close> of the \<open>n\<close> events of \<open>evs\<close> that are objects whose
  \<^verbatim>\<open>type\<close> is one of the strings \<^verbatim>\<open>progress\<close>, \<^verbatim>\<open>vulnerability\<close>,
  \<^verbatim>\<open>error\<close> and \<^verbatim>\<open>agent_action\<close>, in their order of arrival. Every entry
  shown is such an object, and none has the type \<^verbatim>\<open>complete\<close>.
\<close>

theorem displayEvents_window:
  "length (displayEvents evs) \<le> 15 \<and>
   length (displayEvents evs) =
     min 15 (length (filter (\<lambda>e. case e of
        JObj fs \<Rightarrow> map_of fs ''type'' \<in> {Some (JStr ''progress''), Some (JStr ''vulnerability''),
                                           Some (JStr ''error''), Some (JStr ''agent_action'')}
      | _ \<Rightarrow> False) evs)) \<and>
   suffix (displayEvents evs)
     (filter (\<lambda>e. case e of
        JObj fs \<Rightarrow> map_of fs ''type'' \<in> {Some (JStr ''progress''), Some (JStr ''vulnerability''),
                                           Some (JStr ''error''), Some (JStr ''agent_action'')}
      | _ \<Rightarrow> False) evs) \<and>
   (\<forall>e \<in> set (displayEvents evs). \<exists>fs t. e = JObj fs \<and> map_of fs ''type'' = Some (JStr t) \<and>
       t \<in> {''progress'', ''vulnerability'', ''error'', ''agent_action''}) \<and>
   (\<forall>e \<in> set (displayEvents evs). get_prop e ''type'' \<noteq> Inr (JStr ''complete''))"
proof -
  let ?P = "\<lambda>e. case e of
        JObj fs \<Rightarrow> map_of fs ''type'' \<in> {Some (JStr ''progress''), Some (JStr ''vulnerability''),
                                           Some (JStr ''error''), Some (JStr ''agent_action'')}
      | _ \<Rightarrow> False"
  have flt: "logEvents evs = filter ?P evs"
    unfolding logEvents_def by (rule filter_cong) (simp_all add: is_log_event_iff)
  have len: "length (displayEvents evs) = min 15 (length (filter ?P evs))"
    by (simp add: displayEvents_def slice_last_length flt)
  have suf: "suffix (displayEvents evs) (filter ?P evs)"
    unfolding displayEvents_def flt by (rule slice_last_suffix)
  have sub: "set (displayEvents evs) \<subseteq> set (filter ?P evs)"
    using suf by (rule set_mono_suffix)
  have mem: "\<exists>fs t. e = JObj fs \<and> map_of fs ''type'' = Some (JStr t) \<and>
       t \<in> {''progress'', ''vulnerability'', ''error'', ''agent_action''}"
    if "e \<in> set (displayEvents evs)" for e
  proof -
    from that sub have "?P e" by auto
    then show ?thesis by (cases e) auto
  qed
  have nc: "get_prop e ''type'' \<noteq> Inr (JStr ''complete'')" if "e \<in> set (displayEvents evs)" for e
    using mem [OF that] by auto
  from len suf mem nc show ?thesis by simp
qed

lemma sample_log_events:
  "\<not> is_log_event debug_event" "\<not> is_log_event (JNum n)" "is_log_event vuln_sqli"
  "is_log_event agent_event" "is_log_event (error_event err)"
  by (simp_all add: is_log_event_def type_is_def debug_event_def vuln_sqli_def agent_event_def
      error_event_def)

lemma sample_distinct:
  "complete_event \<noteq> progress_at t m" "complete_event \<noteq> vuln_sqli" "complete_event \<noteq> agent_event"
  "complete_event \<noteq> error_event err"
  "debug_event \<noteq> progress_at t m" "debug_event \<noteq> vuln_sqli" "debug_event \<noteq> agent_event"
  "debug_event \<noteq> error_event err"
  by (simp_all add: complete_event_def debug_event_def progress_at_def vuln_sqli_def
      agent_event_def error_event_def)

text \<open>
  A history with an event of unknown type, thirteen progress events, a vulnerability, the
  \<^verbatim>\<open>complete\<close> event, an agent action, a synthesized error and a number: the view
  shows the progress events 2 to 13, the vulnerability, the agent action and the error.
\<close>

theorem displayEvents_window_witness:
  "displayEvents (debug_event # map (\<lambda>t. progress_at t ''scanning'') [1, 2, 3, 4, 5, 6, 7, 8, 9, 10, 11, 12, 13] @ [vuln_sqli, complete_event, agent_event, error_event exit_failure, JNum 42])
     = map (\<lambda>t. progress_at t ''scanning'') [2, 3, 4, 5, 6, 7, 8, 9, 10, 11, 12, 13] @ [vuln_sqli, agent_event, error_event exit_failure] \<and>
   length (displayEvents (debug_event # map (\<lambda>t. progress_at t ''scanning'') [1, 2, 3, 4, 5, 6, 7, 8, 9, 10, 11, 12, 13] @ [vuln_sqli, complete_event, agent_event, error_event exit_failure, JNum 42])) \<le> 15 \<and>
   length (displayEvents (debug_event # map (\<lambda>t. progress_at t ''scanning'') [1, 2, 3, 4, 5, 6, 7, 8, 9, 10, 11, 12, 13] @ [vuln_sqli, complete_event, agent_event, error_event exit_failure, JNum 42])) = 15 \<and>
   complete_event \<notin> set (displayEvents (debug_event # map (\<lambda>t. progress_at t ''scanning'') [1, 2, 3, 4, 5, 6, 7, 8, 9, 10, 11, 12, 13] @ [vuln_sqli, complete_event, agent_event, error_event exit_failure, JNum 42])) \<and>
   debug_event \<notin> set (displayEvents (debug_event # map (\<lambda>t. progress_at t ''scanning'') [1, 2, 3, 4, 5, 6, 7, 8, 9, 10, 11, 12, 13] @ [vuln_sqli, complete_event, agent_event, error_event exit_failure, JNum 42])) \<and>
   JNum 42 \<notin> set (displayEvents (debug_event # map (\<lambda>t. progress_at t ''scanning'') [1, 2, 3, 4, 5, 6, 7, 8, 9, 10, 11, 12, 13] @ [vuln_sqli, complete_event, agent_event, error_event exit_failure, JNum 42]))"
proof -
  have d: "displayEvents (debug_event # map (\<lambda>t. progress_at t ''scanning'') [1, 2, 3, 4, 5, 6, 7, 8, 9, 10, 11, 12, 13] @ [vuln_sqli, complete_event, agent_event, error_event exit_failure, JNum 42])
     = map (\<lambda>t. progress_at t ''scanning'') [2, 3, 4, 5, 6, 7, 8, 9, 10, 11, 12, 13] @ [vuln_sqli, agent_event, error_event exit_failure]"
    by (simp add: displayEvents_def logEvents_def slice_last_def is_log_progress_at
        complete_event_not_log sample_log_events)
  have n: "complete_event \<notin> set (map (\<lambda>t. progress_at t ''scanning'') [2, 3, 4, 5, 6, 7, 8, 9, 10, 11, 12, 13] @ [vuln_sqli, agent_event, error_event exit_failure])" "debug_event \<notin> set (map (\<lambda>t. progress_at t ''scanning'') [2, 3, 4, 5, 6, 7, 8, 9, 10, 11, 12, 13] @ [vuln_sqli, agent_event, error_event exit_failure])"
    by (simp_all add: sample_distinct)
  have k: "JNum 42 \<notin> set (map (\<lambda>t. progress_at t ''scanning'') [2, 3, 4, 5, 6, 7, 8, 9, 10, 11, 12, 13] @ [vuln_sqli, agent_event, error_event exit_failure])"
    by (simp add: progress_at_def vuln_sqli_def agent_event_def error_event_def)
  have w: "length (displayEvents (debug_event # map (\<lambda>t. progress_at t ''scanning'') [1, 2, 3, 4, 5, 6, 7, 8, 9, 10, 11, 12, 13] @ [vuln_sqli, complete_event, agent_event, error_event exit_failure, JNum 42])) \<le> 15"
    using displayEvents_window [of "debug_event # map (\<lambda>t. progress_at t ''scanning'') [1, 2, 3, 4, 5, 6, 7, 8, 9, 10, 11, 12, 13] @ [vuln_sqli, complete_event, agent_event, error_event exit_failure, JNum 42]"]
    by (rule conjunct1)
  have l: "length (displayEvents (debug_event # map (\<lambda>t. progress_at t ''scanning'') [1, 2, 3, 4, 5, 6, 7, 8, 9, 10, 11, 12, 13] @ [vuln_sqli, complete_event, agent_event, error_event exit_failure, JNum 42])) = 15"
    unfolding d by simp
  from d l n k w show ?thesis
    unfolding d by (intro conjI)
qed

section \<open>De-duplication\<close>

text \<open>Two events with the same key: the first is recorded, the second dropped.\<close>

lemma same_key_recorded_once:
  "event_key e1 = Inr k \<Longrightarrow> event_key e2 = Inr k \<Longrightarrow>
   events (deliver_all init_display [e1, e2]) = [e1]"
  by (simp add: deliver_all_def deliver_def on_event_def init_display_def Let_def)

lemma key_sqli: "event_key vuln_sqli = Inr ''vulnerability-5-undefined''"
  by code_simp

lemma key_xss: "event_key vuln_xss = Inr ''vulnerability-5-undefined''"
  by code_simp

text \<open>
  C3. The key is built from \<^verbatim>\<open>type\<close>, \<^verbatim>\<open>timestamp\<close> and \<^verbatim>\<open>message\<close> for
  every variant. A vulnerability event has no \<^verbatim>\<open>message\<close>, so its key ends in
  \<^verbatim>\<open>undefined\<close>: the two different findings \<open>vuln_sqli\<close> and \<open>vuln_xss\<close>, reported
  in the same second, get the same key, and the second one is neither recorded nor
  shown.
\<close>

theorem dedup_collapses_distinct_vulnerabilities:
  "vuln_sqli \<noteq> vuln_xss \<and>
   event_key vuln_sqli = Inr ''vulnerability-5-undefined'' \<and>
   event_key vuln_xss = Inr ''vulnerability-5-undefined'' \<and>
   events (deliver_all init_display [vuln_sqli, vuln_xss]) = [vuln_sqli] \<and>
   displayEvents (events (deliver_all init_display [vuln_sqli, vuln_xss])) = [vuln_sqli]"
proof -
  have ne: "vuln_sqli \<noteq> vuln_xss" by (simp add: vuln_sqli_def vuln_xss_def)
  have t1: "\<not> type_is vuln_sqli ''complete''" "\<not> type_is vuln_sqli ''error''"
           "\<not> type_is vuln_xss ''complete''" "\<not> type_is vuln_xss ''error''"
           "type_is vuln_sqli ''vulnerability''"
    by (simp_all add: type_is_def vuln_sqli_def vuln_xss_def)
  have d1: "deliver init_display vuln_sqli =
      init_display\<lparr>logsRef := {''vulnerability-5-undefined''}, events := [vuln_sqli]\<rparr>"
    by (simp add: deliver_def on_event_def key_sqli t1 init_display_def)
  have d2: "deliver (init_display\<lparr>logsRef := {''vulnerability-5-undefined''}, events := [vuln_sqli]\<rparr>) vuln_xss
      = init_display\<lparr>logsRef := {''vulnerability-5-undefined''}, events := [vuln_sqli]\<rparr>"
    by (simp add: deliver_def on_event_def key_xss t1 init_display_def)
  have ev: "events (deliver_all init_display [vuln_sqli, vuln_xss]) = [vuln_sqli]"
    by (simp add: deliver_all_def d1 d2)
  have disp: "displayEvents [vuln_sqli] = [vuln_sqli]"
    by (simp add: displayEvents_def logEvents_def slice_last_def is_log_event_def t1)
  from ne key_sqli key_xss ev disp show ?thesis by simp
qed

section \<open>The bridge's calls of onEvent\<close>

lemma run_append: "run parse b (xs @ ys) = run parse (run parse b xs) ys"
  by (simp add: run_def)

lemma parsed_events_Cons:
  "parsed_events parse (l # ls) =
     (if js_trim l = [] then parsed_events parse ls
      else case parse l of None \<Rightarrow> parsed_events parse ls
           | Some e \<Rightarrow> e # parsed_events parse ls)"
  by (simp add: parsed_events_def List.map_filter_def split: option.splits)

lemma parsed_events_Nil: "parsed_events parse [] = []"
  by (simp add: parsed_events_def List.map_filter_def)

lemma run_lines_reading:
  "pc b = Reading \<Longrightarrow>
   run parse b (map Line ls) = b\<lparr>trace := trace b @ map OnEvent (parsed_events parse ls)\<rparr>"
proof (induction ls arbitrary: b)
  case Nil
  then show ?case by (simp add: run_def parsed_events_Nil)
next
  case (Cons l ls)
  have pc': "pc (step parse b (Line l)) = Reading"
    using Cons.prems by (simp split: option.splits)
  have "run parse b (map Line (l # ls)) = run parse (step parse b (Line l)) (map Line ls)"
    by (simp add: run_def)
  also have "\<dots> = (step parse b (Line l))\<lparr>trace := trace (step parse b (Line l)) @ map OnEvent (parsed_events parse ls)\<rparr>"
    using Cons.IH [OF pc'] .
  also have "\<dots> = b\<lparr>trace := trace b @ map OnEvent (parsed_events parse (l # ls))\<rparr>"
    using Cons.prems by (simp add: parsed_events_Cons split: option.splits)
  finally show ?case .
qed

lemma run_lines_awaiting:
  "pc b \<noteq> Reading \<Longrightarrow> run parse b (map Line ls) = b"
  by (induction ls) (simp_all add: run_def)

lemma startScan_trace:
  "trace (startScan parse cfg ch ls r) =
     Spawn # (if has_stdin ch then [Write (stringify_config cfg @ [CHR 0x0A])] else []) @
     map OnEvent (if has_stdout ch then parsed_events parse ls else []) @
     (case r of None \<Rightarrow> [] | Some err \<Rightarrow> [OnEvent (error_event err)])"
proof (cases "has_stdout ch")
  case True
  let ?b = "step parse (begin_scan cfg ch new_bridge) Imported"
  have pc1: "pc ?b = Reading"
    using True by (simp add: begin_scan_def new_bridge_def Let_def)
  have first: "\<And>ins. run parse (begin_scan cfg ch new_bridge) (Imported # ins) = run parse ?b ins"
    by (simp add: run_def)
  show ?thesis
    unfolding startScan_def first run_append run_lines_reading [OF pc1]
    using True
    by (simp add: run_def begin_scan_def new_bridge_def Let_def split: option.splits)
next
  case False
  let ?b = "step parse (begin_scan cfg ch new_bridge) Imported"
  have pc1: "pc ?b \<noteq> Reading"
    using False by (simp add: begin_scan_def new_bridge_def Let_def)
  have first: "\<And>ins. run parse (begin_scan cfg ch new_bridge) (Imported # ins) = run parse ?b ins"
    by (simp add: run_def)
  show ?thesis
    unfolding startScan_def first run_append run_lines_awaiting [OF pc1]
    using False
    by (simp add: run_def begin_scan_def new_bridge_def Let_def split: option.splits)
qed

lemma onEvent_calls_append: "onEvent_calls (xs @ ys) = onEvent_calls xs @ onEvent_calls ys"
  by (simp add: onEvent_calls_def List.map_filter_def)

lemma onEvent_calls_map: "onEvent_calls (map OnEvent es) = es"
  by (induction es) (simp_all add: onEvent_calls_def List.map_filter_def)

lemma onEvent_calls_simps:
  "onEvent_calls [] = []"
  "onEvent_calls (Spawn # tr) = onEvent_calls tr"
  "onEvent_calls (Write l # tr) = onEvent_calls tr"
  "onEvent_calls (Kill # tr) = onEvent_calls tr"
  "onEvent_calls (OnEvent e # tr) = e # onEvent_calls tr"
  by (simp_all add: onEvent_calls_def List.map_filter_def)

lemma startScan_calls:
  "onEvent_calls (trace (startScan parse cfg ch ls r)) =
     (if has_stdout ch then parsed_events parse ls else []) @
     (case r of None \<Rightarrow> [] | Some err \<Rightarrow> [error_event err])"
  by (simp add: startScan_trace onEvent_calls_append onEvent_calls_map onEvent_calls_simps
      split: option.splits)

lemma error_event_terminal: "is_terminal (error_event err)"
  by (simp add: is_terminal_def type_is_def error_event_def)

text \<open>
  C1 (as the code has it). The calls of \<^verbatim>\<open>onEvent\<close> in a run that is not stopped
  are the events parsed from the non-blank lines of the child's output, in order, and
  after them one synthesized error event exactly when the child's promise is rejected
  (non-zero exit, signal, failed spawn). The bridge keeps no record of a terminal event
  it has delivered: the number of terminal events the consumer sees is the number of
  terminal lines the child printed, plus one when the promise is rejected, and no event is
  synthesized when the child exits with code 0.
\<close>

theorem startScan_terminal_events:
  "onEvent_calls (trace (startScan parse cfg ch ls r)) =
     (if has_stdout ch then parsed_events parse ls else []) @
     (case r of None \<Rightarrow> [] | Some err \<Rightarrow> [error_event err]) \<and>
   length (filter is_terminal (onEvent_calls (trace (startScan parse cfg ch ls r)))) =
     length (filter is_terminal (if has_stdout ch then parsed_events parse ls else [])) +
     (case r of None \<Rightarrow> 0 | Some err \<Rightarrow> 1)"
  by (simp add: startScan_calls error_event_terminal split: option.splits)

lemma sample_lines:
  "js_trim progress_line \<noteq> []" "js_trim complete_line \<noteq> []"
  "sample_parse progress_line = Some progress_event"
  "sample_parse complete_line = Some complete_event"
  by code_simp+

lemma sample_terminal:
  "\<not> is_terminal progress_event" "is_terminal complete_event"
  by (simp_all add: is_terminal_def type_is_def progress_event_def complete_event_def)

text \<open>A child that prints one progress line and exits with code 1.\<close>

theorem startScan_terminal_events_witness:
  "onEvent_calls (trace (startScan sample_parse sample_config piped_child [progress_line] (Some exit_failure)))
     = [progress_event, error_event exit_failure] \<and>
   length (filter is_terminal (onEvent_calls (trace (startScan sample_parse sample_config piped_child [progress_line] (Some exit_failure))))) = 1"
  using startScan_terminal_events [of sample_parse sample_config piped_child "[progress_line]" "Some exit_failure"]
  by (simp add: parsed_events_Cons parsed_events_Nil sample_lines sample_terminal piped_child_def
      error_event_terminal)

text \<open>
  A child that prints a progress line and exits with code 0 leaves the consumer without
  a terminal event; one that prints its \<^verbatim>\<open>complete\<close> line and then exits with
  code 1 gives it two.
\<close>

theorem startScan_terminal_counterexample:
  "filter is_terminal (onEvent_calls (trace (startScan sample_parse sample_config piped_child [progress_line] None))) = [] \<and>
   filter is_terminal (onEvent_calls (trace (startScan sample_parse sample_config piped_child [progress_line, complete_line] (Some exit_failure))))
     = [complete_event, error_event exit_failure]"
  by (simp add: startScan_calls parsed_events_Cons parsed_events_Nil sample_lines sample_terminal
      error_event_terminal piped_child_def)

section \<open>The synthesized error event\<close>

text \<open>
  C10. The error event that the bridge builds in its \<^verbatim>\<open>catch\<close> has exactly the
  properties \<^verbatim>\<open>type\<close>, \<^verbatim>\<open>message\<close> and \<^verbatim>\<open>stack\<close>; reading its
  \<^verbatim>\<open>timestamp\<close> gives \<^verbatim>\<open>undefined\<close>, which is what the handler puts into the
  key. Every run whose child promise is rejected ends with the delivery of this event, so
  the consumer does receive events without a timestamp.
\<close>

theorem synthesized_error_has_no_timestamp:
  "(\<exists>m st. error_event err = JObj [(''type'', JStr ''error''), (''message'', JStr m), (''stack'', st)]) \<and>
   get_prop (error_event err) ''timestamp'' = Inr JUndefined \<and>
   (\<exists>m. event_key (error_event err) = Inr (''error-undefined-'' @ m)) \<and>
   last (onEvent_calls (trace (startScan parse cfg ch ls (Some err)))) = error_event err \<and>
   error_event err \<in> set (onEvent_calls (trace (startScan parse cfg ch ls (Some err))))"
proof -
  have a: "\<exists>m st. error_event err = JObj [(''type'', JStr ''error''), (''message'', JStr m), (''stack'', st)]"
    by (simp add: error_event_def)
  have b: "get_prop (error_event err) ''timestamp'' = Inr JUndefined"
    by (simp add: error_event_def)
  have c: "\<exists>m. event_key (error_event err) = Inr (''error-undefined-'' @ m)"
    by (simp add: error_event_def event_key_def)
  have d: "last (onEvent_calls (trace (startScan parse cfg ch ls (Some err)))) = error_event err"
    by (simp add: startScan_calls)
  have e: "error_event err \<in> set (onEvent_calls (trace (startScan parse cfg ch ls (Some err))))"
    by (simp add: startScan_calls)
  from a b c d e show ?thesis by blast
qed

text \<open>
  A child that prints the progress line and exits with code 1: the parsed event has
  its timestamp, the synthesized one has none.
\<close>

theorem synthesized_error_has_no_timestamp_witness:
  "onEvent_calls (trace (startScan sample_parse sample_config piped_child [progress_line] (Some exit_failure)))
     = [progress_event, error_event exit_failure] \<and>
   get_prop progress_event ''timestamp'' = Inr (JNum 1) \<and>
   get_prop (error_event exit_failure) ''timestamp'' = Inr JUndefined \<and>
   event_key (error_event exit_failure) = Inr ''error-undefined-Command failed with exit code 1''"
  using synthesized_error_has_no_timestamp [of exit_failure sample_parse sample_config piped_child "[progress_line]"]
  by (simp add: startScan_calls parsed_events_Cons parsed_events_Nil sample_lines piped_child_def
      progress_event_def error_event_def exit_failure_def event_key_def)

section \<open>The handler after a terminal event\<close>
lemma deliver_events_cases:
  "events (deliver s e) = events s \<or> events (deliver s e) = events s @ [e]"
  by (auto simp: deliver_def on_event_def Let_def split: sum.splits)

lemma deliver_prefix: "prefix (events s) (events (deliver s e))"
  using deliver_events_cases [of s e] by auto

lemma deliver_all_prefix: "prefix (events s) (events (deliver_all s es))"
proof (induction es arbitrary: s)
  case Nil
  then show ?case by (simp add: deliver_all_def)
next
  case (Cons e es)
  have "prefix (events s) (events (deliver s e))" by (rule deliver_prefix)
  moreover have "prefix (events (deliver s e)) (events (deliver_all (deliver s e) es))"
    by (rule Cons.IH)
  ultimately show ?case by (auto simp: deliver_all_def)
qed

lemma deliver_isComplete: "isComplete s \<Longrightarrow> isComplete (deliver s e)"
  by (auto simp: deliver_def on_event_def Let_def split: sum.splits)

lemma deliver_all_isComplete: "isComplete s \<Longrightarrow> isComplete (deliver_all s es)"
  by (induction es arbitrary: s) (simp_all add: deliver_all_def deliver_isComplete)

text \<open>
  C2 (as the code has it). The handler never looks at \<^verbatim>\<open>isComplete\<close>. The
  recorded history is append-only under any sequence of deliveries, and
  \<^verbatim>\<open>isComplete\<close>, once set, stays set; but an event is accepted exactly when its key
  has not been seen, before a terminal event and after it alike.
\<close>

theorem handler_accepts_after_terminal:
  "prefix (events s) (events (deliver_all s es)) \<and>
   (isComplete s \<longrightarrow> isComplete (deliver_all s es)) \<and>
   (event_key e = Inr k \<and> k \<notin> logsRef s \<longrightarrow> events (deliver s e) = events s @ [e]) \<and>
   (event_key e = Inr k \<and> k \<in> logsRef s \<longrightarrow> events (deliver s e) = events s)"
proof -
  have a: "event_key e = Inr k \<and> k \<notin> logsRef s \<longrightarrow> events (deliver s e) = events s @ [e]"
    by (auto simp: deliver_def on_event_def Let_def)
  have b: "event_key e = Inr k \<and> k \<in> logsRef s \<longrightarrow> events (deliver s e) = events s"
    by (auto simp: deliver_def on_event_def Let_def)
  from a b deliver_all_prefix deliver_all_isComplete show ?thesis by blast
qed

lemma sample_keys:
  "event_key complete_event = Inr ''complete-2-undefined''"
  "event_key progress_event = Inr ''progress-1-m''"
  by code_simp+

lemma sample_types:
  "type_is complete_event ''complete''" "\<not> type_is complete_event ''error''"
  "\<not> type_is progress_event ''complete''" "\<not> type_is progress_event ''error''"
  "type_is progress_event ''progress''"
  by (simp_all add: type_is_def complete_event_def progress_event_def)

lemma progress_event_is_log: "is_log_event progress_event"
  by (simp add: is_log_event_def sample_types)

lemma key_exit_failure:
  "event_key (error_event exit_failure) = Inr ''error-undefined-Command failed with exit code 1''"
  by code_simp

lemma deliver_complete_first:
  "deliver init_display complete_event =
     \<lparr>events = [complete_event], isComplete = True, logsRef = {''complete-2-undefined''}, timers = Suc 0\<rparr>"
  by (simp add: deliver_def on_event_def sample_keys init_display_def Let_def sample_types)

text \<open>After the \<^verbatim>\<open>complete\<close> event, the progress event is still appended.\<close>

theorem handler_accepts_after_terminal_witness:
  "isComplete (deliver init_display complete_event) \<and>
   ''progress-1-m'' \<notin> logsRef (deliver init_display complete_event) \<and>
   events (deliver (deliver init_display complete_event) progress_event) = [complete_event, progress_event] \<and>
   isComplete (deliver_all (deliver init_display complete_event) [progress_event])"
  using handler_accepts_after_terminal [of "deliver init_display complete_event" "[progress_event]" progress_event "''progress-1-m''"]
  by (simp add: deliver_complete_first sample_keys)

text \<open>
  The history and the log view both grow after the \<^verbatim>\<open>complete\<close> event has been
  handled: by a progress line that the child prints after its \<^verbatim>\<open>complete\<close> line,
  and by the error event that the bridge synthesizes when the child then exits with
  code 1.
\<close>

theorem accepted_after_terminal_counterexample:
  "is_terminal complete_event \<and>
   events (deliver_all init_display [complete_event]) = [complete_event] \<and>
   events (deliver_all init_display [complete_event, progress_event]) = [complete_event, progress_event] \<and>
   displayEvents (events (deliver_all init_display [complete_event])) = [] \<and>
   displayEvents (events (deliver_all init_display [complete_event, progress_event])) = [progress_event] \<and>
   events (scan_session sample_parse sample_config piped_child [complete_line, progress_line] None)
     = [complete_event, progress_event] \<and>
   events (scan_session sample_parse sample_config piped_child [complete_line] (Some exit_failure))
     = [complete_event, error_event exit_failure]"
proof -
  have d3: "events (deliver \<lparr>events = [complete_event], isComplete = True,
      logsRef = {''complete-2-undefined''}, timers = Suc 0\<rparr> (error_event exit_failure))
      = [complete_event, error_event exit_failure]"
    by (simp add: deliver_def on_event_def key_exit_failure Let_def)
  have calls3: "onEvent_calls (trace (startScan sample_parse sample_config piped_child [complete_line] (Some exit_failure)))
     = [complete_event, error_event exit_failure]"
    by (simp add: startScan_calls parsed_events_Cons parsed_events_Nil sample_lines piped_child_def)
  have d2: "events (deliver \<lparr>events = [complete_event], isComplete = True,
      logsRef = {''complete-2-undefined''}, timers = Suc 0\<rparr> progress_event) = [complete_event, progress_event]"
    by (simp add: deliver_def on_event_def sample_keys Let_def sample_types)
  have calls: "onEvent_calls (trace (startScan sample_parse sample_config piped_child [complete_line, progress_line] None))
     = [complete_event, progress_event]"
    by (simp add: startScan_calls parsed_events_Cons parsed_events_Nil sample_lines piped_child_def)
  have disp: "displayEvents [complete_event] = []" "displayEvents [complete_event, progress_event] = [progress_event]"
    by (simp_all add: displayEvents_def logEvents_def slice_last_def complete_event_not_log
        progress_event_is_log)
  show ?thesis
    by (simp add: sample_terminal deliver_all_def deliver_complete_first d2 d3 scan_session_def
        calls calls3 disp)
qed

section \<open>The configuration line\<close>
lemma hex_digit_not_newline: "d < 16 \<Longrightarrow> hex_digit d \<noteq> CHR 0x0A"
proof
  assume d: "d < 16" and "hex_digit d = CHR 0x0A"
  then have "(of_char (hex_digit d) :: nat) = 10" by simp
  with d show False by (auto simp: hex_digit_def split: if_splits)
qed

lemma json_escape_no_newline: "CHR 0x0A \<notin> set (json_escape c)"
proof -
  have "(of_char c :: nat) \<noteq> 10 \<Longrightarrow> c \<noteq> CHR 0x0A" by auto
  moreover have "(of_char c :: nat) < 32 \<Longrightarrow> hex_digit (of_char c div 16) \<noteq> CHR 0x0A"
    by (rule hex_digit_not_newline) simp
  moreover have "hex_digit (of_char c mod 16) \<noteq> CHR 0x0A"
    by (rule hex_digit_not_newline) simp
  ultimately show ?thesis by (auto simp: json_escape_def Let_def)
qed

lemma json_string_no_newline: "CHR 0x0A \<notin> set (json_string s)"
  by (simp add: json_string_def json_escape_no_newline)

lemma join_with_no_newline:
  "\<forall>x \<in> set xs. c \<notin> set x \<Longrightarrow> c \<notin> set sep \<Longrightarrow> c \<notin> set (join_with sep xs)"
  by (induction sep xs rule: join_with.induct) auto

lemma stringify_config_no_newline: "CHR 0x0A \<notin> set (stringify_config cfg)"
proof -
  have "\<forall>x \<in> set (map (\<lambda>(k, v). json_string k @ '':'' @ json_string v) (config_props cfg)).
          CHR 0x0A \<notin> set x"
    by (auto simp: json_string_no_newline)
  then have "CHR 0x0A \<notin> set (join_with '','' (map (\<lambda>(k, v). json_string k @ '':'' @ json_string v) (config_props cfg)))"
    by (rule join_with_no_newline) simp
  then show ?thesis by (simp add: stringify_config_def)
qed

lemma step_writes: "filter is_write (trace (step parse b i)) = filter is_write (trace b)"
  by (cases i) (auto simp: is_write_def split: option.splits)

lemma run_writes: "filter is_write (trace (run parse b ins)) = filter is_write (trace b)"
proof (induction ins arbitrary: b)
  case Nil
  then show ?case by (simp add: run_def)
next
  case (Cons i ins)
  have "run parse b (i # ins) = run parse (step parse b i) ins" by (simp add: run_def)
  then show ?case using Cons.IH [of "step parse b i"] step_writes [of parse b i] by simp
qed

lemma step_trace_extends: "prefix (trace b) (trace (step parse b i))"
  by (cases i) (auto split: option.splits)

lemma run_trace_extends: "prefix (trace b) (trace (run parse b ins))"
proof (induction ins arbitrary: b)
  case Nil
  then show ?case by (simp add: run_def)
next
  case (Cons i ins)
  have "run parse b (i # ins) = run parse (step parse b i) ins" by (simp add: run_def)
  then show ?case
    using Cons.IH [of "step parse b i"] step_trace_extends [of b parse i]
    by (auto intro: prefix_order.trans)
qed

lemma hex_value_digit: "d < 16 \<Longrightarrow> hex_value (hex_digit d) = Some d"
  by (auto simp: hex_value_def hex_digit_def Let_def)


lemma of_char_code:
  "((of_char c :: nat) = 34) = (c = CHR 0x22)"
  "((of_char c :: nat) = 92) = (c = CHR 0x5C)"
  "((of_char c :: nat) = 8) = (c = CHR 0x08)"
  "((of_char c :: nat) = 12) = (c = CHR 0x0C)"
  "((of_char c :: nat) = 10) = (c = CHR 0x0A)"
  "((of_char c :: nat) = 13) = (c = CHR 0x0D)"
  "((of_char c :: nat) = 9) = (c = CHR 0x09)"
  using of_char_eq_iff [of c "CHR 0x22", where ?'a = nat]
    of_char_eq_iff [of c "CHR 0x5C", where ?'a = nat]
    of_char_eq_iff [of c "CHR 0x08", where ?'a = nat]
    of_char_eq_iff [of c "CHR 0x0C", where ?'a = nat]
    of_char_eq_iff [of c "CHR 0x0A", where ?'a = nat]
    of_char_eq_iff [of c "CHR 0x0D", where ?'a = nat]
    of_char_eq_iff [of c "CHR 0x09", where ?'a = nat]
  by simp_all

lemma hex_value_zero: "hex_value (CHR ''0'') = Some 0"
  by (simp add: hex_value_def)

lemma read_chars_escape:
  "read_chars (json_escape c @ rest) = map_option (\<lambda>(s, r). (c # s, r)) (read_chars rest)"
proof -
  consider (short) "c \<in> {CHR 0x22, CHR 0x5C, CHR 0x08, CHR 0x0C, CHR 0x0A, CHR 0x0D, CHR 0x09}"
    | (ctl) "c \<notin> {CHR 0x22, CHR 0x5C, CHR 0x08, CHR 0x0C, CHR 0x0A, CHR 0x0D, CHR 0x09}"
        "(of_char c :: nat) < 32"
    | (plain) "c \<notin> {CHR 0x22, CHR 0x5C, CHR 0x08, CHR 0x0C, CHR 0x0A, CHR 0x0D, CHR 0x09}"
        "\<not> (of_char c :: nat) < 32"
    by blast
  then show ?thesis
  proof cases
    case short
    then show ?thesis
      by (auto simp: json_escape_def short_escape_def)
  next
    case ctl
    have d: "char_of (16 * ((of_char c :: nat) div 16) + of_char c mod 16) = c"
      by simp
    have h: "hex_value (hex_digit ((of_char c :: nat) div 16)) = Some (of_char c div 16)"
      "hex_value (hex_digit ((of_char c :: nat) mod 16)) = Some (of_char c mod 16)"
      using ctl(2) by (simp_all add: hex_value_digit)
    from ctl show ?thesis
      by (simp add: json_escape_def Let_def of_char_code hex_value_zero h d)
  next
    case plain
    then show ?thesis
      by (simp add: json_escape_def Let_def of_char_code)
  qed
qed

lemma read_chars_escaped:
  "read_chars (concat (map json_escape s) @ CHR 0x22 # rest) = Some (s, rest)"
  by (induction s) (simp_all add: read_chars_escape)

lemma read_string_json: "read_string (json_string s @ rest) = Some (s, rest)"
  by (simp add: read_string_def json_string_def read_chars_escaped)

lemma read_member_render:
  "read_member (render_member kv @ rest) = Some (kv, rest)"
  using read_string_json [of "fst kv" "'':'' @ json_string (snd kv) @ rest"]
    read_string_json [of "snd kv" rest]
  by (simp add: read_member_def render_member_def)

lemma read_members_join:
  "ms \<noteq> [] \<Longrightarrow> length ms \<le> n \<Longrightarrow>
   read_members n (join_with '','' (map render_member ms) @ ''}'') = Some ms"
proof (induction ms arbitrary: n)
  case Nil
  then show ?case by simp
next
  case (Cons kv ms)
  then obtain k where n: "n = Suc k" by (cases n) auto
  show ?case
  proof (cases ms)
    case Nil
    then show ?thesis
      using read_member_render [of kv "''}''"] by (simp add: n)
  next
    case (Cons kv' ms')
    then have "read_members k (join_with '','' (map render_member ms) @ ''}'') = Some ms"
      using Cons.IH [of k] Cons.prems n by simp
    then show ?thesis
      using read_member_render [of kv "'','' @ join_with '','' (map render_member ms) @ ''}''"] Cons
      by (simp add: n)
  qed
qed

lemma render_member_nonempty: "render_member kv \<noteq> []"
  by (simp add: render_member_def json_string_def)

lemma join_with_length:
  "length ms \<le> length (join_with '','' (map render_member ms))"
proof (induction ms rule: induct_list012)
  case 1
  then show ?case by simp
next
  case (2 kv)
  then show ?case using render_member_nonempty [of kv] by (cases "render_member kv") simp_all
next
  case (3 kv kv' ms)
  then show ?case using render_member_nonempty [of kv] by (cases "render_member kv") simp_all
qed

lemma stringify_config_members:
  "stringify_config cfg = ''{'' @ join_with '','' (map render_member (config_props cfg)) @ ''}''"
proof -
  have "(\<lambda>(k, v). json_string k @ '':'' @ json_string v) = render_member"
    by (auto simp: render_member_def fun_eq_iff)
  then show ?thesis by (simp add: stringify_config_def)
qed

lemma read_object_stringify:
  "read_object (stringify_config cfg) = Some (config_props cfg)"
proof -
  let ?ms = "config_props cfg"
  let ?r = "join_with '','' (map render_member ?ms) @ ''}''"
  have ne: "?ms \<noteq> []" by (simp add: config_props_def)
  have len: "length ?ms \<le> length ?r"
    using join_with_length [of ?ms] by simp
  obtain ms' where "?ms = (''target'', target cfg) # ms'"
    by (simp add: config_props_def)
  then have "?r \<noteq> ''}''"
    by (cases ms') (simp_all add: render_member_def json_string_def)
  then show ?thesis
    using read_members_join [OF ne len]
    by (simp add: stringify_config_members read_object_def)
qed

lemma stringify_config_shape:
  "stringify_config cfg =
     ''{\"target\":'' @ json_string (target cfg) @
     (case objective cfg of None \<Rightarrow> [] | Some v \<Rightarrow> '',\"objective\":'' @ json_string v) @
     (case provider cfg of None \<Rightarrow> [] | Some v \<Rightarrow> '',\"provider\":'' @ json_string v) @
     (case model cfg of None \<Rightarrow> [] | Some v \<Rightarrow> '',\"model\":'' @ json_string v) @ ''}''"
proof -
  have k: "json_string ''target'' = ''\"target\"''" "json_string ''objective'' = ''\"objective\"''"
    "json_string ''provider'' = ''\"provider\"''" "json_string ''model'' = ''\"model\"''"
    by (simp_all add: json_string_def json_escape_def)
  show ?thesis
    by (cases "objective cfg"; cases "provider cfg"; cases "model cfg")
       (simp_all add: stringify_config_def config_props_def List.map_filter_def k)
qed

lemma config_props_explicit:
  "config_props cfg =
     (''target'', target cfg) #
     (case objective cfg of None \<Rightarrow> [] | Some v \<Rightarrow> [(''objective'', v)]) @
     (case provider cfg of None \<Rightarrow> [] | Some v \<Rightarrow> [(''provider'', v)]) @
     (case model cfg of None \<Rightarrow> [] | Some v \<Rightarrow> [(''model'', v)])"
  by (simp add: config_props_def List.map_filter_def split: option.splits)

text \<open>
  C9. When the child has a standard input, the bridge's first two actions are the spawn
  and the write of the serialized config followed by a newline, and no other write is
  made in the run, whatever happens later. The line holds exactly one newline, its last
  character. The serialized config is the text \<^verbatim>\<open>{"target":\<close>, the target as a JSON
  string, then for each of \<^verbatim>\<open>objective\<close>, \<^verbatim>\<open>provider\<close> and \<^verbatim>\<open>model\<close> that
  is set, in this order, a comma, the key and the value as a JSON string, and the closing
  brace: nothing is written for a key that is unset. A JSON string reads back as the
  string it was made from, and the line reads back as the object whose members are the
  target and the keys that are set: a key that is unset is not a key of the object that
  was sent. An objective typed as the empty string is turned into an unset one, and the
  config made from the target \<^verbatim>\<open>example.com\<close> with no objective is serialized as
  \<^verbatim>\<open>{"target":"example.com"}\<close>.
\<close>

theorem config_line_omits_unset_keys:
  "(has_stdin ch \<longrightarrow>
      take 2 (trace (run parse (begin_scan cfg ch new_bridge) ins))
        = [Spawn, Write (stringify_config cfg @ [CHR 0x0A])] \<and>
      filter is_write (trace (run parse (begin_scan cfg ch new_bridge) ins))
        = [Write (stringify_config cfg @ [CHR 0x0A])]) \<and>
   count_list (stringify_config cfg @ [CHR 0x0A]) (CHR 0x0A) = 1 \<and>
   stringify_config cfg =
     ''{\"target\":'' @ json_string (target cfg) @
     (case objective cfg of None \<Rightarrow> [] | Some v \<Rightarrow> '',\"objective\":'' @ json_string v) @
     (case provider cfg of None \<Rightarrow> [] | Some v \<Rightarrow> '',\"provider\":'' @ json_string v) @
     (case model cfg of None \<Rightarrow> [] | Some v \<Rightarrow> '',\"model\":'' @ json_string v) @ ''}'' \<and>
   read_string (json_string str @ rest) = Some (str, rest) \<and>
   read_object (stringify_config cfg) =
     Some ((''target'', target cfg) #
           (case objective cfg of None \<Rightarrow> [] | Some v \<Rightarrow> [(''objective'', v)]) @
           (case provider cfg of None \<Rightarrow> [] | Some v \<Rightarrow> [(''provider'', v)]) @
           (case model cfg of None \<Rightarrow> [] | Some v \<Rightarrow> [(''model'', v)])) \<and>
   (objective cfg = None \<longrightarrow>
      (\<exists>ms. read_object (stringify_config cfg) = Some ms \<and> ''objective'' \<notin> fst ` set ms)) \<and>
   (provider cfg = None \<longrightarrow>
      (\<exists>ms. read_object (stringify_config cfg) = Some ms \<and> ''provider'' \<notin> fst ` set ms)) \<and>
   (model cfg = None \<longrightarrow>
      (\<exists>ms. read_object (stringify_config cfg) = Some ms \<and> ''model'' \<notin> fst ` set ms)) \<and>
   objective (snd (handleObjectiveSubmit s [])) = None \<and>
   stringify_config (snd (handleObjectiveSubmit (handleTargetSubmit s ''example.com'') []))
     = ''{\"target\":\"example.com\"}''"
proof -
  have tr0: "has_stdin ch \<Longrightarrow>
      trace (begin_scan cfg ch new_bridge) = [Spawn, Write (stringify_config cfg @ [CHR 0x0A])]"
    by (simp add: begin_scan_def new_bridge_def Let_def)
  have a: "has_stdin ch \<longrightarrow>
      take 2 (trace (run parse (begin_scan cfg ch new_bridge) ins))
        = [Spawn, Write (stringify_config cfg @ [CHR 0x0A])]"
  proof
    assume h: "has_stdin ch"
    obtain t where "trace (run parse (begin_scan cfg ch new_bridge) ins)
        = trace (begin_scan cfg ch new_bridge) @ t"
      using run_trace_extends [of "begin_scan cfg ch new_bridge" parse ins]
      by (auto simp: prefix_def)
    then show "take 2 (trace (run parse (begin_scan cfg ch new_bridge) ins))
        = [Spawn, Write (stringify_config cfg @ [CHR 0x0A])]"
      by (simp add: tr0 [OF h])
  qed
  have b: "has_stdin ch \<longrightarrow>
      filter is_write (trace (run parse (begin_scan cfg ch new_bridge) ins))
        = [Write (stringify_config cfg @ [CHR 0x0A])]"
    by (simp add: run_writes tr0 is_write_def)
  have c: "count_list (stringify_config cfg @ [CHR 0x0A]) (CHR 0x0A) = 1"
    using stringify_config_no_newline [of cfg] by (simp add: count_list_0_iff)
  have r: "read_object (stringify_config cfg) =
     Some ((''target'', target cfg) #
           (case objective cfg of None \<Rightarrow> [] | Some v \<Rightarrow> [(''objective'', v)]) @
           (case provider cfg of None \<Rightarrow> [] | Some v \<Rightarrow> [(''provider'', v)]) @
           (case model cfg of None \<Rightarrow> [] | Some v \<Rightarrow> [(''model'', v)]))"
    unfolding read_object_stringify by (simp add: config_props_explicit)
  have d: "objective cfg = None \<longrightarrow>
      (\<exists>ms. read_object (stringify_config cfg) = Some ms \<and> ''objective'' \<notin> fst ` set ms)"
    "provider cfg = None \<longrightarrow>
      (\<exists>ms. read_object (stringify_config cfg) = Some ms \<and> ''provider'' \<notin> fst ` set ms)"
    "model cfg = None \<longrightarrow>
      (\<exists>ms. read_object (stringify_config cfg) = Some ms \<and> ''model'' \<notin> fst ` set ms)"
    unfolding r by (auto split: option.splits)
  have e: "objective (snd (handleObjectiveSubmit s [])) = None"
    by (simp add: handleObjectiveSubmit_def)
  have f: "stringify_config (snd (handleObjectiveSubmit (handleTargetSubmit s ''example.com'') []))
     = ''{\"target\":\"example.com\"}''"
    by (simp add: handleObjectiveSubmit_def handleTargetSubmit_def stringify_config_def
        config_props_def json_string_def json_escape_def List.map_filter_def)
  have ab: "has_stdin ch \<longrightarrow>
      take 2 (trace (run parse (begin_scan cfg ch new_bridge) ins))
        = [Spawn, Write (stringify_config cfg @ [CHR 0x0A])] \<and>
      filter is_write (trace (run parse (begin_scan cfg ch new_bridge) ins))
        = [Write (stringify_config cfg @ [CHR 0x0A])]"
    using a b by blast
  from ab c stringify_config_shape [of cfg] read_string_json [of str rest] r d e f
  show ?thesis by (intro conjI)
qed

lemma full_line:
  "stringify_config full_config =
     ''{\"target\":\"http://example.com/?q='' @ [CHR 0x5C, CHR 0x22] @ ''x'' @ [CHR 0x5C, CHR 0x22] @
     ''\",\"objective\":\"Focus on OWASP Top 10\",\"provider\":\"openai\",\"model\":\"gpt-5\"}''"
  by (simp add: full_config_def stringify_config_def config_props_def json_string_def
      json_escape_def List.map_filter_def)

lemma control_string:
  "json_string [CHR 0x1F, CHR 0x0A, CHR 0x5C] =
     [CHR 0x22, CHR 0x5C, CHR ''u'', CHR ''0'', CHR ''0'', CHR ''1'', CHR ''f'',
      CHR 0x5C, CHR ''n'', CHR 0x5C, CHR 0x5C, CHR 0x22]"
  by code_simp

text \<open>
  The sample config, written to a child with pipes; the config with every key set; and a
  string with a control character, a newline and a backslash.
\<close>

theorem config_line_omits_unset_keys_witness:
  "has_stdin piped_child \<and> objective sample_config = None \<and> provider sample_config = None \<and>
   model sample_config = None \<and>
   trace (run sample_parse (begin_scan sample_config piped_child new_bridge) [])
     = [Spawn, Write (''{\"target\":\"example.com\"}'' @ [CHR 0x0A])] \<and>
   read_object ''{\"target\":\"example.com\"}'' = Some [(''target'', ''example.com'')] \<and>
   stringify_config full_config =
     ''{\"target\":\"http://example.com/?q='' @ [CHR 0x5C, CHR 0x22] @ ''x'' @ [CHR 0x5C, CHR 0x22] @
     ''\",\"objective\":\"Focus on OWASP Top 10\",\"provider\":\"openai\",\"model\":\"gpt-5\"}'' \<and>
   read_object (stringify_config full_config) =
     Some [(''target'', ''http://example.com/?q=\"x\"''), (''objective'', ''Focus on OWASP Top 10''),
           (''provider'', ''openai''), (''model'', ''gpt-5'')] \<and>
   read_string [CHR 0x22, CHR 0x5C, CHR ''u'', CHR ''0'', CHR ''0'', CHR ''1'', CHR ''f'',
      CHR 0x5C, CHR ''n'', CHR 0x5C, CHR 0x5C, CHR 0x22] = Some ([CHR 0x1F, CHR 0x0A, CHR 0x5C], [])"
proof -
  have l: "stringify_config sample_config = ''{\"target\":\"example.com\"}''"
    by (simp add: sample_config_def stringify_config_def config_props_def json_string_def
        json_escape_def List.map_filter_def)
  have t: "trace (run sample_parse (begin_scan sample_config piped_child new_bridge) [])
     = [Spawn, Write (''{\"target\":\"example.com\"}'' @ [CHR 0x0A])]"
    by (simp add: run_def begin_scan_def piped_child_def new_bridge_def Let_def l)
  have h: "has_stdin piped_child" "objective sample_config = None" "provider sample_config = None"
    "model sample_config = None"
    by (simp_all add: piped_child_def sample_config_def)
  note w1 = config_line_omits_unset_keys [of piped_child sample_parse sample_config "[]"
      "[CHR 0x1F, CHR 0x0A, CHR 0x5C]" "[]" init_input]
  note w2 = config_line_omits_unset_keys [of piped_child sample_parse full_config "[]"
      "[CHR 0x1F, CHR 0x0A, CHR 0x5C]" "[]" init_input]
  have r1: "read_object ''{\"target\":\"example.com\"}'' = Some [(''target'', ''example.com'')]"
    using w1 [THEN conjunct2, THEN conjunct2, THEN conjunct2, THEN conjunct2, THEN conjunct1,
        unfolded l]
    by (simp add: sample_config_def)
  have r2: "read_object (stringify_config full_config) =
     Some [(''target'', ''http://example.com/?q=\"x\"''), (''objective'', ''Focus on OWASP Top 10''),
           (''provider'', ''openai''), (''model'', ''gpt-5'')]"
    using w2 [THEN conjunct2, THEN conjunct2, THEN conjunct2, THEN conjunct2, THEN conjunct1]
    by (simp add: full_config_def)
  have r3: "read_string [CHR 0x22, CHR 0x5C, CHR ''u'', CHR ''0'', CHR ''0'', CHR ''1'', CHR ''f'',
      CHR 0x5C, CHR ''n'', CHR 0x5C, CHR 0x5C, CHR 0x22] = Some ([CHR 0x1F, CHR 0x0A, CHR 0x5C], [])"
    using w1 [THEN conjunct2, THEN conjunct2, THEN conjunct2, THEN conjunct1]
    by (simp add: control_string)
  from h t r1 full_line r2 r3 show ?thesis by (intro conjI)
qed

section \<open>From the input form to the spawn\<close>

text \<open>
  C4 (as the code has it). Nothing validates the target. Whatever strings the user
  submits as target and objective, \<^verbatim>\<open>TargetInput\<close> submits a config with exactly
  that target; \<^verbatim>\<open>App\<close> stores any config it is given and shows \<^verbatim>\<open>ScanDisplay\<close>
  with it; and \<^verbatim>\<open>startScan\<close> begins by spawning the child for any config.
\<close>

theorem target_reaches_bridge_unvalidated:
  "snd (handleObjectiveSubmit (handleTargetSubmit s t) v)
     = \<lparr>target = t, objective = (if v = [] then None else Some v), provider = None, model = None\<rparr> \<and>
   (error a = None \<longrightarrow> scan_display_config (app_onSubmit a c) = Some c) \<and>
   (\<exists>rest. trace (startScan parse c ch ls r) = Spawn # rest)"
  by (simp add: handleObjectiveSubmit_def handleTargetSubmit_def scan_display_config_def
      app_onSubmit_def startScan_trace)

text \<open>The path of the sample config from the form to the spawn.\<close>

theorem target_reaches_bridge_unvalidated_witness:
  "error init_app = None \<and>
   scan_display_config (app_onSubmit init_app sample_config) = Some sample_config \<and>
   snd (handleObjectiveSubmit (handleTargetSubmit init_input ''example.com'') []) = sample_config \<and>
   (\<exists>rest. trace (startScan sample_parse sample_config piped_child [] None) = Spawn # rest)"
  using target_reaches_bridge_unvalidated [of init_input "''example.com''" "[]" init_app sample_config
      sample_parse piped_child "[]" None]
  by (simp add: init_app_def sample_config_def)

text \<open>
  Pressing Enter twice on the empty form submits a config with an empty target; the
  scan screen is shown with it, the child is spawned and is sent
  \<^verbatim>\<open>{"target":""}\<close>.
\<close>

theorem empty_target_counterexample:
  "snd (handleObjectiveSubmit (handleTargetSubmit init_input []) [])
     = \<lparr>target = [], objective = None, provider = None, model = None\<rparr> \<and>
   scan_display_config (app_onSubmit (init_app\<lparr>screen := Input_screen\<rparr>)
       \<lparr>target = [], objective = None, provider = None, model = None\<rparr>)
     = Some \<lparr>target = [], objective = None, provider = None, model = None\<rparr> \<and>
   trace (startScan sample_parse \<lparr>target = [], objective = None, provider = None, model = None\<rparr>
       piped_child [] None)
     = [Spawn, Write (''{\"target\":\"\"}'' @ [CHR 0x0A])]"
  by (simp add: handleObjectiveSubmit_def handleTargetSubmit_def init_input_def
      scan_display_config_def app_onSubmit_def init_app_def startScan_trace piped_child_def
      parsed_events_Nil stringify_config_def config_props_def json_string_def json_escape_def
      List.map_filter_def)

section \<open>Stopping the bridge\<close>

lemma run_after_stop_reading:
  assumes "pc b = Reading"
  shows "trace (run parse (step parse b Stop) (map Line ls @ [Eof, Settled r]))
           = trace (step parse b Stop) @ map OnEvent (parsed_events parse ls)"
proof -
  let ?b = "step parse b Stop"
  have pc: "pc ?b = Reading" and pr: "\<not> process ?b"
    using assms by simp_all
  have "run parse ?b (map Line ls) = ?b\<lparr>trace := trace ?b @ map OnEvent (parsed_events parse ls)\<rparr>"
    using pc by (rule run_lines_reading)
  then show ?thesis
    using pc pr by (simp add: run_append run_def)
qed

text \<open>
  C5 (as the code has it). \<^verbatim>\<open>stop()\<close> is idempotent, and on a bridge that was
  never started it does nothing; with a handle present it sends SIGTERM and clears the
  handle. It does not detach the reader: after a \<^verbatim>\<open>stop()\<close> during the reading
  loop (the reader has been set up and the output has not ended), the lines that still
  arrive are parsed and delivered as before. When the output then ends, the bridge awaits
  the cleared handle, so that it synthesizes no error event, whatever the killed child's
  promise settles to.
\<close>

theorem stop_behaviour:
  "step parse (step parse b Stop) Stop = step parse b Stop \<and>
   step parse new_bridge Stop = new_bridge \<and>
   (process b \<longrightarrow> step parse b Stop = b\<lparr>process := False, trace := trace b @ [Kill]\<rparr>) \<and>
   (pc b = Reading \<longrightarrow>
      trace (run parse (step parse b Stop) (map Line ls @ [Eof, Settled r]))
        = trace (step parse b Stop) @ map OnEvent (parsed_events parse ls))"
  using run_after_stop_reading [of b parse ls r] by (simp add: new_bridge_def)

lemma begin_sample:
  "begin_scan sample_config piped_child new_bridge =
     \<lparr>process = True, pc = Importing,
      trace = [Spawn, Write (stringify_config sample_config @ [CHR 0x0A])]\<rparr>"
  by (simp add: begin_scan_def piped_child_def new_bridge_def Let_def)

lemma reading_sample:
  "run sample_parse (begin_scan sample_config piped_child new_bridge) [Imported] =
     \<lparr>process = True, pc = Reading,
      trace = [Spawn, Write (stringify_config sample_config @ [CHR 0x0A])]\<rparr>"
  by (simp add: run_def begin_sample)

text \<open>
  A stop right after the reader has been set up, with one progress line still to come.
\<close>

theorem stop_behaviour_witness:
  "process (run sample_parse (begin_scan sample_config piped_child new_bridge) [Imported]) \<and>
   pc (run sample_parse (begin_scan sample_config piped_child new_bridge) [Imported]) = Reading \<and>
   trace (run sample_parse
            (step sample_parse (run sample_parse (begin_scan sample_config piped_child new_bridge) [Imported]) Stop)
            (map Line [progress_line] @ [Eof, Settled (Some killed_failure)]))
     = [Spawn, Write (stringify_config sample_config @ [CHR 0x0A]), Kill, OnEvent progress_event] \<and>
   step sample_parse
     (step sample_parse (run sample_parse (begin_scan sample_config piped_child new_bridge) [Imported]) Stop) Stop
     = \<lparr>process = False, pc = Reading,
        trace = [Spawn, Write (stringify_config sample_config @ [CHR 0x0A]), Kill]\<rparr>"
  using stop_behaviour [of sample_parse
      "run sample_parse (begin_scan sample_config piped_child new_bridge) [Imported]"
      "[progress_line]" "Some killed_failure"]
  by (simp add: reading_sample parsed_events_Cons parsed_events_Nil sample_lines)

text \<open>
  Three runs in which \<^verbatim>\<open>onEvent\<close> is called after \<^verbatim>\<open>stop()\<close>: with a buffered
  \<^verbatim>\<open>complete\<close> line that is read after the stop; with a stop that comes while the
  bridge already awaits the child's promise, whose rejection is then reported as a
  synthesized error event; and with a stop that comes while \<^verbatim>\<open>readline\<close> is being
  imported, after which the read of \<^verbatim>\<open>this.process.stdout\<close> throws and the
  TypeError is reported as an error event.
\<close>

theorem events_after_stop_counterexample:
  "trace (run sample_parse (begin_scan sample_config piped_child new_bridge)
            [Imported, Line progress_line, Stop, Line complete_line, Eof, Settled (Some killed_failure)])
     = [Spawn, Write (stringify_config sample_config @ [CHR 0x0A]),
        OnEvent progress_event, Kill, OnEvent complete_event] \<and>
   trace (run sample_parse (begin_scan sample_config piped_child new_bridge)
            [Imported, Line progress_line, Eof, Stop, Settled (Some killed_failure)])
     = [Spawn, Write (stringify_config sample_config @ [CHR 0x0A]),
        OnEvent progress_event, Kill, OnEvent (error_event killed_failure)] \<and>
   trace (run sample_parse (begin_scan sample_config piped_child new_bridge)
            [Stop, Imported, Line progress_line, Eof, Settled (Some killed_failure)])
     = [Spawn, Write (stringify_config sample_config @ [CHR 0x0A]),
        Kill, OnEvent (error_event null_stdout_error)]"
  by (simp add: run_def begin_sample sample_lines)

section \<open>Waiting for Docker to start\<close>





text \<open>Where there is no start procedure, the stage fails at once, without a poll.\<close>

lemma start_stage_unsupported:
  "\<not> running st \<Longrightarrow> os_platform env \<noteq> Darwin \<Longrightarrow>
   start_stage env st = ([Progress ''Starting Docker...''], Inl (Error ''Please start Docker manually''))"
  by (cases "os_platform env") (simp_all add: start_stage_def startDockerDesktop_def)










section \<open>An environment that is ready\<close>
lemma getDockerStatus_ready:
  assumes "snd (getDockerStatus env) = \<lparr>installed = True, running = True, imageBuilt = True\<rparr>"
  shows "getDockerStatus env =
     ([Exec ''docker'' [''--version''], Exec ''docker'' [''ps''],
       Exec ''docker'' [''images'', ''-q'', ''inferno-sandbox:latest'']],
      \<lparr>installed = True, running = True, imageBuilt = True\<rparr>)"
  using assms
  by (auto simp: getDockerStatus_def checkDockerInstalled_def checkDockerRunning_def
      checkImageBuilt_def split: if_splits)

text \<open>
  C8. When the probe reports Docker installed, running and the image built,
  \<^verbatim>\<open>ensureDocker\<close> returns that status and its only actions are the three queries
  of the probe: no install, no start, no sleep or poll, no build, no progress message.
  The result depends on the probe's answers alone, so it is the same at every call that
  gets these answers.
\<close>

theorem ensureDocker_ready_no_remediation:
  assumes "snd (getDockerStatus env) = \<lparr>installed = True, running = True, imageBuilt = True\<rparr>"
  shows "ensureDocker env =
     ([Exec ''docker'' [''--version''], Exec ''docker'' [''ps''],
       Exec ''docker'' [''images'', ''-q'', ''inferno-sandbox:latest'']],
      Inr \<lparr>installed = True, running = True, imageBuilt = True\<rparr>) \<and>
    filter is_remediation (fst (ensureDocker env)) = [] \<and>
    (\<forall>a \<in> set (fst (ensureDocker env)). is_probe a) \<and>
    fst (ensureDocker env) = fst (getDockerStatus env)"
proof -
  have e: "ensureDocker env =
     ([Exec ''docker'' [''--version''], Exec ''docker'' [''ps''],
       Exec ''docker'' [''images'', ''-q'', ''inferno-sandbox:latest'']],
      Inr \<lparr>installed = True, running = True, imageBuilt = True\<rparr>)"
    by (simp add: ensureDocker_def getDockerStatus_ready [OF assms] and_then_def
        install_stage_def start_stage_def build_stage_def)
  show ?thesis
    by (simp add: e getDockerStatus_ready [OF assms] is_probe_def)
qed

text \<open>The ready machine.\<close>

theorem ensureDocker_ready_no_remediation_witness:
  "snd (getDockerStatus ready_env) = \<lparr>installed = True, running = True, imageBuilt = True\<rparr> \<and>
   ensureDocker ready_env =
     ([Exec ''docker'' [''--version''], Exec ''docker'' [''ps''],
       Exec ''docker'' [''images'', ''-q'', ''inferno-sandbox:latest'']],
      Inr \<lparr>installed = True, running = True, imageBuilt = True\<rparr>) \<and>
   filter is_remediation (fst (ensureDocker ready_env)) = []"
proof -
  have h: "snd (getDockerStatus ready_env) = \<lparr>installed = True, running = True, imageBuilt = True\<rparr>"
    by (simp add: getDockerStatus_def checkDockerInstalled_def checkDockerRunning_def
        checkImageBuilt_def ready_env_def js_trim_def is_space_def)
  show ?thesis using h ensureDocker_ready_no_remediation [OF h] by simp
qed

end
